theory Spec2Isabelle
  imports Complex_Main "HOL-Library.Sublist"
begin

section \<open>Values of the JavaScript runtime\<close>

text \<open>
  The program is TypeScript running in a browser. Its numbers are IEEE doubles; here a
  number is either an exact rational or \<open>NaN\<close> (rounding and the infinities are not
  modelled). What \<open>JSON.parse\<close> builds is a \<open>json\<close> value; \<open>undefined\<close> is the \<open>None\<close> of
  \<open>jsval\<close>. An object is the list of its own properties, each key once.
\<close>

datatype jsnum = Num rat | NaN

datatype json =
    JNull
  | JBool bool
  | JNum rat
  | JStr string
  | JArr "json list"
  | JObj "(string \<times> json) list"

type_synonym jsval = "json option"

datatype exn =
    Error string
  | TypeError string
  | SyntaxError string
  | Rejection string

text \<open>
  The arithmetic operators \<open>/\<close>, \<open>*\<close> and \<open>-\<close> on numbers: \<open>NaN\<close> is absorbing. The only
  divisor of this program is 1000; a division by zero, which would be an infinity, is
  \<open>NaN\<close> here.
\<close>

fun js_div :: "jsnum \<Rightarrow> jsnum \<Rightarrow> jsnum" where
  "js_div (Num a) (Num b) = (if b = 0 then NaN else Num (a / b))"
| "js_div _ _ = NaN"

fun js_mul :: "jsnum \<Rightarrow> jsnum \<Rightarrow> jsnum" where
  "js_mul (Num a) (Num b) = Num (a * b)"
| "js_mul _ _ = NaN"

fun js_sub :: "jsnum \<Rightarrow> jsnum \<Rightarrow> jsnum" where
  "js_sub (Num a) (Num b) = Num (a - b)"
| "js_sub _ _ = NaN"

text \<open>
  The iteration protocol, as \<open>for (const x of v)\<close> and array destructuring use it: arrays
  and strings are iterable, \<open>null\<close>, booleans, numbers and plain objects are not, and
  \<open>undefined\<close> is not either.
\<close>

fun js_iterate :: "jsval \<Rightarrow> exn + json list" where
  "js_iterate (Some (JArr xs)) = Inr xs"
| "js_iterate (Some (JStr s)) = Inr (map (\<lambda>c. JStr [c]) s)"
| "js_iterate _ = Inl (TypeError ''is not iterable'')"

text \<open>
  Property access \<open>v.k\<close> on a parsed value, for the keys this program reads
  (\<open>box_2d\<close>, \<open>label\<close>, \<open>description\<close>): it throws on \<open>null\<close>, finds an own property of an
  object, and is \<open>undefined\<close> everywhere else.
\<close>

fun js_get :: "json \<Rightarrow> string \<Rightarrow> exn + jsval" where
  "js_get JNull k = Inl (TypeError ''Cannot read properties of null'')"
| "js_get (JObj kvs) k = Inr (map_of kvs k)"
| "js_get _ k = Inr None"

text \<open>\<open>const [a, b, c, d] = v\<close>: the first four values of the iteration, \<open>undefined\<close> where it ends early.\<close>

definition nth_opt :: "'a list \<Rightarrow> nat \<Rightarrow> 'a option" where
  "nth_opt xs i = (if i < length xs then Some (xs ! i) else None)"

definition destructure4 :: "jsval \<Rightarrow> exn + (jsval \<times> jsval \<times> jsval \<times> jsval)" where
  "destructure4 v =
     (case js_iterate v of
        Inl e \<Rightarrow> Inl e
      | Inr xs \<Rightarrow> Inr (nth_opt xs 0, nth_opt xs 1, nth_opt xs 2, nth_opt xs 3))"

section \<open>Detections and requests\<close>

text \<open>
  \<open>VisualElement\<close> is the interface the source declares for one detection;
  \<open>box_2d\<close> is \<open>[ymin, xmin, ymax, xmax]\<close>.
\<close>

record VisualElement =
  ve_label :: string
  box_2d :: "rat \<times> rat \<times> rat \<times> rat"
  ve_description :: string

text \<open>The runtime value of a \<open>VisualElement\<close>, as \<open>JSON.parse\<close> builds it.\<close>

definition ve_json :: "VisualElement \<Rightarrow> json" where
  "ve_json d =
     (case box_2d d of (ymin, xmin, ymax, xmax) \<Rightarrow>
        JObj [(''label'', JStr (ve_label d)),
              (''box_2d'', JArr [JNum ymin, JNum xmin, JNum ymax, JNum xmax]),
              (''description'', JStr (ve_description d))])"

text \<open>The response schema the detection request carries (the \<open>responseSchema\<close> of the source).\<close>

datatype schema =
    SString
  | SNumber
  | SArray schema
  | SObject "(string \<times> schema) list" "string list"

definition detection_schema :: schema where
  "detection_schema =
     SArray (SObject [(''label'', SString),
                      (''box_2d'', SArray SNumber),
                      (''description'', SString)]
                     [''label'', ''box_2d'', ''description''])"

text \<open>
  A value conforms to a schema: the type fits, every element of an array conforms to the
  item schema, every required property is present and every declared property that is
  present conforms.
\<close>

fun conforms :: "schema \<Rightarrow> json \<Rightarrow> bool" where
  "conforms SString v = (case v of JStr _ \<Rightarrow> True | _ \<Rightarrow> False)"
| "conforms SNumber v = (case v of JNum _ \<Rightarrow> True | _ \<Rightarrow> False)"
| "conforms (SArray s) v = (case v of JArr xs \<Rightarrow> list_all (conforms s) xs | _ \<Rightarrow> False)"
| "conforms (SObject props req) v =
     (case v of
        JObj kvs \<Rightarrow>
          list_all (\<lambda>k. k \<in> fst ` set kvs) req \<and>
          list_all (\<lambda>ps. case map_of kvs (fst ps) of
                            None \<Rightarrow> True
                          | Some x \<Rightarrow> conforms (snd ps) x) props
      | _ \<Rightarrow> False)"

record gen_request =
  req_model :: string
  req_prompt :: string
  req_data :: "string option"
  req_mimeType :: string
  req_responseMimeType :: "string option"
  req_responseSchema :: "schema option"

section \<open>The browser's collaborators\<close>

text \<open>
  A \<open>File\<close> has a MIME type and bytes. A PDF document, once opened by the PDF library, has
  \<open>numPages\<close> pages and hands out a page on request; a page has a viewport for a scale
  factor and renders itself onto a canvas context (\<open>Some e\<close>: the rendering rejects with \<open>e\<close>).
\<close>

record File =
  file_type :: string
  file_bytes :: string

record viewport =
  vp_width :: rat
  vp_height :: rat

record pdf_page =
  getViewport :: "rat \<Rightarrow> viewport"
  render :: "bool \<Rightarrow> viewport \<Rightarrow> exn option"

record pdf_doc =
  numPages :: int
  getPage :: "int \<Rightarrow> exn + pdf_page"

text \<open>An \<open>HTMLImageElement\<close> once its \<open>load\<close> event has fired.\<close>

record image =
  img_src :: string
  img_width :: nat
  img_height :: nat

text \<open>
  A canvas is the sequence of operations performed on it since it was created; what
  they paint is the browser's business, and \<open>toDataURL\<close> reads the result.
\<close>

datatype canvas_op =
    SetWidth jsnum
  | SetHeight jsnum
  | ClearRect jsnum jsnum jsnum jsnum
  | DrawImage image jsnum jsnum jsnum jsnum jsnum jsnum jsnum jsnum
  | RenderPage pdf_page viewport

type_synonym canvas = "canvas_op list"

text \<open>
  \<open>ExtractedItem\<close> is the interface \<open>LivePreview\<close> declares (\<open>id\<close>, \<open>label\<close>, \<open>dataUrl\<close>,
  \<open>description\<close>). At run time its label and description are whatever the detection
  carried under these keys.
\<close>

record ExtractedItem =
  item_id :: string
  label :: jsval
  dataUrl :: string
  description :: jsval

text \<open>
  What the program does to the world, in order: the state setters of the \<open>App\<close> component,
  the console, the alert box, and the calls to its collaborators.
\<close>

datatype action =
    SetIsGenerating bool
  | SetOriginalImage "string option"
  | SetExtractedItems "ExtractedItem list"
  | SetShowPreview bool
  | ConsoleError string exn
  | Alert string
  | RemoteCall gen_request
  | ReadAsDataURL
  | FileArrayBuffer
  | PdfGetDocument
  | PdfGetPage int
  | PdfRender
  | ImageLoad string

text \<open>
  Everything the program calls and does not define.
  \<^item> \<open>readAsDataURL\<close>: the data URL a \<open>FileReader\<close> delivers to \<open>onload\<close>; \<open>None\<close> when
    the \<open>load\<close> event never fires.
  \<^item> \<open>arrayBuffer\<close>: \<open>file.arrayBuffer()\<close>.
  \<^item> \<open>pdfjsLib\<close>: \<open>window.pdfjsLib\<close>, when it is there, as its \<open>getDocument\<close>.
  \<^item> \<open>getContext\<close>: whether \<open>canvas.getContext('2d')\<close> yields a context (not \<open>null\<close>).
  \<^item> \<open>toDataURL\<close>: the encoding of a canvas for a MIME type and a quality.
  \<^item> \<open>generateContent\<close>: the remote capability; it rejects, or resolves to a response
    whose \<open>text\<close> is a string or \<open>undefined\<close>.
  \<^item> \<open>JSON_parse\<close>: \<open>JSON.parse\<close>; it throws a \<open>SyntaxError\<close> (\<open>None\<close>) or returns the
    value the text denotes, whatever its shape.
  \<^item> \<open>image_onload\<close>: the pixel width and height of the image a URL decodes to; \<open>None\<close>
    when the \<open>load\<close> event never fires.
  \<^item> \<open>randomUUID\<close>: the result of the \<open>k\<close>-th call of \<open>crypto.randomUUID()\<close> in a scan.
  \<^item> \<open>ToNumber\<close>: the numeric coercion of a string, an array or an object.
\<close>

record env =
  readAsDataURL :: "File \<Rightarrow> string option"
  arrayBuffer :: "File \<Rightarrow> exn + string"
  pdfjsLib :: "(string \<Rightarrow> exn + pdf_doc) option"
  getContext :: bool
  toDataURL :: "canvas \<Rightarrow> string \<Rightarrow> rat \<Rightarrow> string"
  generateContent :: "gen_request \<Rightarrow> exn + string option"
  JSON_parse :: "string \<Rightarrow> json option"
  image_onload :: "string \<Rightarrow> (nat \<times> nat) option"
  randomUUID :: "nat \<Rightarrow> string"
  ToNumber :: "json \<Rightarrow> jsnum"

text \<open>The coercion the arithmetic operators apply to an operand.\<close>

definition to_number :: "env \<Rightarrow> jsval \<Rightarrow> jsnum" where
  "to_number env v =
     (case v of
        None \<Rightarrow> NaN
      | Some JNull \<Rightarrow> Num 0
      | Some (JBool b) \<Rightarrow> Num (if b then 1 else 0)
      | Some (JNum r) \<Rightarrow> Num r
      | Some x \<Rightarrow> ToNumber env x)"

section \<open>The inference service (services/gemini)\<close>

definition detect_prompt :: string where
  "detect_prompt = ''Identify all distinct diagrams, photos, charts, illustrations, and maps in this image. For each, provide a short label and precise bounding box coordinates.''"

definition detect_request :: "string option \<Rightarrow> gen_request" where
  "detect_request imageBase64 =
     \<lparr> req_model = ''gemini-3-flash-preview'',
       req_prompt = detect_prompt,
       req_data = imageBase64,
       req_mimeType = ''image/jpeg'',
       req_responseMimeType = Some ''application/json'',
       req_responseSchema = Some detection_schema \<rparr>"

text \<open>
  The body of the \<open>try\<close> of \<open>detectVisualElements\<close>: \<open>Inl\<close> is what it throws.
  An \<open>undefined\<close> or empty text is falsy.
\<close>

definition detect_try :: "env \<Rightarrow> string option \<Rightarrow> exn + json" where
  "detect_try env imageBase64 =
     (case generateContent env (detect_request imageBase64) of
        Inl e \<Rightarrow> Inl e
      | Inr text \<Rightarrow>
          (case text of
             None \<Rightarrow> Inr (JArr [])
           | Some t \<Rightarrow>
               if t = [] then Inr (JArr [])
               else (case JSON_parse env t of
                       None \<Rightarrow> Inl (SyntaxError t)
                     | Some v \<Rightarrow> Inr v)))"

text \<open>
  \<open>detectVisualElements\<close>: the actions it performs and what its promise settles to.
  The \<open>catch\<close> logs the error and returns the empty array.
\<close>

definition detectVisualElements :: "env \<Rightarrow> string option \<Rightarrow> action list \<times> (exn + json)" where
  "detectVisualElements env imageBase64 =
     (case detect_try env imageBase64 of
        Inl e \<Rightarrow>
          ([RemoteCall (detect_request imageBase64), ConsoleError ''Detection Error:'' e],
           Inr (JArr []))
      | Inr v \<Rightarrow> ([RemoteCall (detect_request imageBase64)], Inr v))"

definition explain_prompt :: "string \<Rightarrow> string" where
  "explain_prompt lbl =
     ''This is an extracted visual element labeled '' @ [CHR 0x22] @ lbl @ [CHR 0x22] @
     ''. Please provide a detailed explanation of what is shown, including any data, text labels within the image, and its likely purpose or significance. Use markdown for formatting.''"

definition explain_request :: "string option \<Rightarrow> string \<Rightarrow> gen_request" where
  "explain_request imageBase64 lbl =
     \<lparr> req_model = ''gemini-3-pro-preview'',
       req_prompt = explain_prompt lbl,
       req_data = imageBase64,
       req_mimeType = ''image/jpeg'',
       req_responseMimeType = None,
       req_responseSchema = None \<rparr>"

text \<open>\<open>explainExtractedImage\<close>: \<open>response.text || "No explanation could be generated."\<close> in
  the \<open>try\<close>, a second constant in the \<open>catch\<close>.\<close>

definition explainExtractedImage ::
  "env \<Rightarrow> string option \<Rightarrow> string \<Rightarrow> action list \<times> (exn + string)" where
  "explainExtractedImage env imageBase64 lbl =
     (case generateContent env (explain_request imageBase64 lbl) of
        Inl e \<Rightarrow>
          ([RemoteCall (explain_request imageBase64 lbl), ConsoleError ''Explanation Error:'' e],
           Inr ''Error generating explanation.'')
      | Inr text \<Rightarrow>
          ([RemoteCall (explain_request imageBase64 lbl)],
           Inr (case text of
                  None \<Rightarrow> ''No explanation could be generated.''
                | Some t \<Rightarrow> if t = [] then ''No explanation could be generated.'' else t)))"

section \<open>Rasterizing a page (App.getPageImage)\<close>

text \<open>
  A promise settles with a value, rejects, or stays pending for ever: the two promises
  the source builds by hand (around \<open>FileReader.onload\<close> and \<open>img.onload\<close>) have no
  reject path.
\<close>

datatype 'a outcome = Returns 'a | Throws exn | Never

text \<open>
  \<open>Math.min(Math.max(1, pageNum), pageCount)\<close>. The page number is an integer: the input
  area passes \<open>parseInt(value) || 1\<close>.
\<close>

definition actualPageNum :: "int \<Rightarrow> int \<Rightarrow> int" where
  "actualPageNum pageNum pageCount = min (max 1 pageNum) pageCount"

text \<open>The canvas of \<open>getPageImage\<close> after rendering: height first, as in the source.\<close>

definition page_canvas :: "pdf_page \<Rightarrow> viewport \<Rightarrow> canvas" where
  "page_canvas page vp =
     [SetHeight (Num (vp_height vp)), SetWidth (Num (vp_width vp)), RenderPage page vp]"

definition getPageImage :: "env \<Rightarrow> File \<Rightarrow> int \<Rightarrow> action list \<times> string outcome" where
  "getPageImage env file pageNum =
     (if prefix ''image/'' (file_type file) then
        ([ReadAsDataURL],
         case readAsDataURL env file of None \<Rightarrow> Never | Some url \<Rightarrow> Returns url)
      else
        (case pdfjsLib env of
           None \<Rightarrow> ([], Throws (Error ''PDF Library missing''))
         | Some getDocument \<Rightarrow>
             (case arrayBuffer env file of
                Inl e \<Rightarrow> ([FileArrayBuffer], Throws e)
              | Inr data \<Rightarrow>
                  (case getDocument data of
                     Inl e \<Rightarrow> ([FileArrayBuffer, PdfGetDocument], Throws e)
                   | Inr pdf \<Rightarrow>
                       (let n = actualPageNum pageNum (numPages pdf) in
                        case getPage pdf n of
                          Inl e \<Rightarrow> ([FileArrayBuffer, PdfGetDocument, PdfGetPage n], Throws e)
                        | Inr page \<Rightarrow>
                            (let vp = getViewport page 2 in
                             ([FileArrayBuffer, PdfGetDocument, PdfGetPage n, PdfRender],
                              case render page (getContext env) vp of
                                Some e \<Rightarrow> Throws e
                              | None \<Rightarrow>
                                  Returns (toDataURL env (page_canvas page vp)
                                             ''image/jpeg'' (95 / 100)))))))))"

section \<open>The scan (App.handleScan)\<close>

text \<open>\<open>s.split(c)\<close> for a one-character separator: never the empty list.\<close>

fun js_split :: "char \<Rightarrow> string \<Rightarrow> string list" where
  "js_split c [] = [[]]"
| "js_split c (x # xs) =
     (if x = c then [] # js_split c xs
      else (case js_split c xs of
              [] \<Rightarrow> [[x]]
            | y # ys \<Rightarrow> (x # y) # ys))"

text \<open>
  One turn of the loop over the detections: the four box values, the pixel rectangle,
  the operations on the one shared canvas, and the item pushed.
\<close>

definition crop_left :: "env \<Rightarrow> image \<Rightarrow> jsval \<Rightarrow> jsnum" where
  "crop_left env img xmin =
     js_mul (js_div (to_number env xmin) (Num 1000)) (Num (of_nat (img_width img)))"

definition crop_top :: "env \<Rightarrow> image \<Rightarrow> jsval \<Rightarrow> jsnum" where
  "crop_top env img ymin =
     js_mul (js_div (to_number env ymin) (Num 1000)) (Num (of_nat (img_height img)))"

definition crop_width :: "env \<Rightarrow> image \<Rightarrow> jsval \<Rightarrow> jsval \<Rightarrow> jsnum" where
  "crop_width env img xmin xmax =
     js_mul (js_div (js_sub (to_number env xmax) (to_number env xmin)) (Num 1000))
            (Num (of_nat (img_width img)))"

definition crop_height :: "env \<Rightarrow> image \<Rightarrow> jsval \<Rightarrow> jsval \<Rightarrow> jsnum" where
  "crop_height env img ymin ymax =
     js_mul (js_div (js_sub (to_number env ymax) (to_number env ymin)) (Num 1000))
            (Num (of_nat (img_height img)))"

definition crop_ops :: "env \<Rightarrow> image \<Rightarrow> jsval \<times> jsval \<times> jsval \<times> jsval \<Rightarrow> canvas" where
  "crop_ops env img box =
     (case box of (ymin, xmin, ymax, xmax) \<Rightarrow>
        (let left = crop_left env img xmin;
             top' = crop_top env img ymin;
             width = crop_width env img xmin xmax;
             height = crop_height env img ymin ymax
         in [SetWidth width, SetHeight height] @
            (if getContext env
             then [ClearRect (Num 0) (Num 0) width height,
                   DrawImage img left top' width height (Num 0) (Num 0) width height]
             else [])))"

fun crop_loop ::
  "env \<Rightarrow> image \<Rightarrow> json list \<Rightarrow> canvas \<Rightarrow> ExtractedItem list \<Rightarrow> exn + ExtractedItem list" where
  "crop_loop env img [] cv items = Inr items"
| "crop_loop env img (det # dets) cv items =
     (case js_get det ''box_2d'' of
        Inl e \<Rightarrow> Inl e
      | Inr b \<Rightarrow>
          (case destructure4 b of
             Inl e \<Rightarrow> Inl e
           | Inr box \<Rightarrow>
               (case js_get det ''label'' of
                  Inl e \<Rightarrow> Inl e
                | Inr l \<Rightarrow>
                    (case js_get det ''description'' of
                       Inl e \<Rightarrow> Inl e
                     | Inr d \<Rightarrow>
                         (let cv' = cv @ crop_ops env img box in
                          crop_loop env img dets cv'
                            (items @
                             [\<lparr> item_id = randomUUID env (length items),
                                label = l,
                                dataUrl = toDataURL env cv' ''image/jpeg'' (9 / 10),
                                description = d \<rparr>]))))))"

text \<open>Lines 72 to 96 of \<open>handleScan\<close>: a fresh item list, a fresh canvas, the loop.\<close>

definition crop_all :: "env \<Rightarrow> image \<Rightarrow> json \<Rightarrow> exn + ExtractedItem list" where
  "crop_all env img detections =
     (case js_iterate (Some detections) of
        Inl e \<Rightarrow> Inl e
      | Inr dets \<Rightarrow> crop_loop env img dets [] [])"

text \<open>The body of the \<open>try\<close> of \<open>handleScan\<close>.\<close>

definition scan_try :: "env \<Rightarrow> int \<Rightarrow> File \<Rightarrow> action list \<times> unit outcome" where
  "scan_try env pageNumber file =
     (case getPageImage env file pageNumber of
        (as1, Never) \<Rightarrow> (as1, Never)
      | (as1, Throws e) \<Rightarrow> (as1, Throws e)
      | (as1, Returns pageDataUrl) \<Rightarrow>
          (let base64ForGemini = nth_opt (js_split CHR '','' pageDataUrl) 1 in
           case detectVisualElements env base64ForGemini of
             (as2, Inl e) \<Rightarrow> (as1 @ [SetOriginalImage (Some pageDataUrl)] @ as2, Throws e)
           | (as2, Inr detections) \<Rightarrow>
               (case image_onload env pageDataUrl of
                  None \<Rightarrow>
                    (as1 @ [SetOriginalImage (Some pageDataUrl)] @ as2 @ [ImageLoad pageDataUrl],
                     Never)
                | Some (w, h) \<Rightarrow>
                    (case crop_all env \<lparr> img_src = pageDataUrl, img_width = w, img_height = h \<rparr>
                            detections of
                       Inl e \<Rightarrow>
                         (as1 @ [SetOriginalImage (Some pageDataUrl)] @ as2 @
                          [ImageLoad pageDataUrl], Throws e)
                     | Inr items \<Rightarrow>
                         (as1 @ [SetOriginalImage (Some pageDataUrl)] @ as2 @
                          [ImageLoad pageDataUrl, SetExtractedItems items], Returns ())))))"

definition scan_catch :: "exn \<Rightarrow> action list" where
  "scan_catch e =
     [ConsoleError ''Scanning failed:'' e,
      Alert ''Extraction failed. Check the console for details.'',
      SetShowPreview False]"

definition handleScan :: "env \<Rightarrow> int \<Rightarrow> File option \<Rightarrow> action list \<times> unit outcome" where
  "handleScan env pageNumber file =
     (case file of
        None \<Rightarrow> ([], Returns ())
      | Some f \<Rightarrow>
          (case scan_try env pageNumber f of
             (as, Returns u) \<Rightarrow>
               ([SetIsGenerating True, SetShowPreview True, SetExtractedItems []] @ as @
                [SetIsGenerating False], Returns ())
           | (as, Throws e) \<Rightarrow>
               ([SetIsGenerating True, SetShowPreview True, SetExtractedItems []] @ as @
                scan_catch e @ [SetIsGenerating False], Returns ())
           | (as, Never) \<Rightarrow>
               ([SetIsGenerating True, SetShowPreview True, SetExtractedItems []] @ as, Never)))"

definition handleReset :: "action list" where
  "handleReset =
     [SetShowPreview False, SetIsGenerating False, SetExtractedItems [], SetOriginalImage None]"

section \<open>The session state\<close>

record state =
  isGenerating :: bool
  originalImage :: "string option"
  extractedItems :: "ExtractedItem list"
  showPreview :: bool

definition initial_state :: state where
  "initial_state =
     \<lparr> isGenerating = False, originalImage = None, extractedItems = [], showPreview = False \<rparr>"

fun apply_action :: "state \<Rightarrow> action \<Rightarrow> state" where
  "apply_action s (SetIsGenerating b) = s\<lparr>isGenerating := b\<rparr>"
| "apply_action s (SetOriginalImage i) = s\<lparr>originalImage := i\<rparr>"
| "apply_action s (SetExtractedItems xs) = s\<lparr>extractedItems := xs\<rparr>"
| "apply_action s (SetShowPreview b) = s\<lparr>showPreview := b\<rparr>"
| "apply_action s _ = s"

definition run :: "state \<Rightarrow> action list \<Rightarrow> state" where
  "run s as = foldl apply_action s as"

text \<open>
  What \<open>LivePreview\<close> renders in its results pane from the props \<open>items\<close> and
  \<open>isLoading\<close>: the spinner while loading, the item cards otherwise.
\<close>

definition LivePreview_items :: "state \<Rightarrow> ExtractedItem list" where
  "LivePreview_items s = (if isGenerating s then [] else extractedItems s)"

text \<open>The actions that leave the component: calls to a collaborator the scan then awaits.\<close>

fun is_external :: "action \<Rightarrow> bool" where
  "is_external (RemoteCall r) = True"
| "is_external ReadAsDataURL = True"
| "is_external FileArrayBuffer = True"
| "is_external PdfGetDocument = True"
| "is_external (PdfGetPage n) = True"
| "is_external PdfRender = True"
| "is_external (ImageLoad u) = True"
| "is_external _ = False"

text \<open>The actions that write the loading flag or the item list.\<close>

fun writes_items_or_loading :: "action \<Rightarrow> bool" where
  "writes_items_or_loading (SetIsGenerating b) = True"
| "writes_items_or_loading (SetExtractedItems xs) = True"
| "writes_items_or_loading _ = False"

text \<open>What an item shows: its label, its crop and its description, without its identifier.\<close>

definition crop_of :: "ExtractedItem \<Rightarrow> jsval \<times> string \<times> jsval" where
  "crop_of it = (label it, dataUrl it, description it)"

section \<open>The crop rectangle as the specification words it\<close>

text \<open>
  \<open>spec_rect\<close> is \<open>(left, top, width, height)\<close> by the formulas of the specification, on
  exact numbers; \<open>spec_copy\<close> sizes the output to \<open>(width, height)\<close> and copies the region
  of the page at \<open>(left, top)\<close> to the origin of the output with the same extent, which
  is a copy at scale one.
\<close>

definition spec_rect :: "nat \<Rightarrow> nat \<Rightarrow> rat \<times> rat \<times> rat \<times> rat \<Rightarrow> rat \<times> rat \<times> rat \<times> rat" where
  "spec_rect pageWidth pageHeight box =
     (case box of (ymin, xmin, ymax, xmax) \<Rightarrow>
        ((xmin / 1000) * of_nat pageWidth,
         (ymin / 1000) * of_nat pageHeight,
         ((xmax - xmin) / 1000) * of_nat pageWidth,
         ((ymax - ymin) / 1000) * of_nat pageHeight))"

definition spec_copy :: "image \<Rightarrow> rat \<times> rat \<times> rat \<times> rat \<Rightarrow> canvas" where
  "spec_copy img rect =
     (case rect of (left, top', width, height) \<Rightarrow>
        [SetWidth (Num width), SetHeight (Num height),
         ClearRect (Num 0) (Num 0) (Num width) (Num height),
         DrawImage img (Num left) (Num top') (Num width) (Num height)
                       (Num 0) (Num 0) (Num width) (Num height)])"

definition spec_crop :: "image \<Rightarrow> VisualElement \<Rightarrow> canvas" where
  "spec_crop img d = spec_copy img (spec_rect (img_width img) (img_height img) (box_2d d))"

text \<open>The four box values of a typed detection, as the loop destructures them.\<close>

definition box_values :: "VisualElement \<Rightarrow> jsval \<times> jsval \<times> jsval \<times> jsval" where
  "box_values d =
     (case box_2d d of (ymin, xmin, ymax, xmax) \<Rightarrow>
        (Some (JNum ymin), Some (JNum xmin), Some (JNum ymax), Some (JNum xmax)))"

section \<open>A small concrete world\<close>

text \<open>
  An environment to run the model in: files read to a data URL of their bytes, no PDF
  library, a remote service that finds nothing, an encoder that only records how many
  canvas operations it saw, and pages of 800 by 600 pixels.
\<close>

definition demo_env :: env where
  "demo_env =
     \<lparr> readAsDataURL = (\<lambda>f. Some (''data:'' @ file_type f @ '';base64,'' @ file_bytes f)),
       arrayBuffer = (\<lambda>f. Inr (file_bytes f)),
       pdfjsLib = None,
       getContext = True,
       toDataURL = (\<lambda>cv mime q. ''data:'' @ mime @ '';base64,'' @ replicate (length cv) CHR ''A''),
       generateContent = (\<lambda>r. Inr (Some ''[]'')),
       JSON_parse = (\<lambda>t. if t = ''[]'' then Some (JArr [])
                         else if t = ''{}'' then Some (JObj [])
                         else None),
       image_onload = (\<lambda>u. Some (800, 600)),
       randomUUID = (\<lambda>k. replicate (Suc k) CHR ''u''),
       ToNumber = (\<lambda>v. NaN) \<rparr>"

definition demo_image :: image where
  "demo_image = \<lparr> img_src = ''data:image/png;base64,QUJD'', img_width = 800, img_height = 600 \<rparr>"

definition demo_file :: File where
  "demo_file = \<lparr> file_type = ''image/png'', file_bytes = ''QUJD'' \<rparr>"

text \<open>A ten-page document whose pages are 612 by 792 units and always render.\<close>

definition demo_page :: pdf_page where
  "demo_page =
     \<lparr> getViewport = (\<lambda>scale. \<lparr> vp_width = 612 * scale, vp_height = 792 * scale \<rparr>),
       render = (\<lambda>ctx vp. None) \<rparr>"

definition demo_pdf :: pdf_doc where
  "demo_pdf =
     \<lparr> numPages = 10,
       getPage = (\<lambda>k. if 1 \<le> k \<and> k \<le> 10 then Inr demo_page
                       else Inl (Rejection ''Invalid page request'')) \<rparr>"

definition demo_pdf_file :: File where
  "demo_pdf_file = \<lparr> file_type = ''application/pdf'', file_bytes = ''JVBERg=='' \<rparr>"

definition demo_pdf_env :: env where
  "demo_pdf_env = demo_env \<lparr> pdfjsLib := Some (\<lambda>data. Inr demo_pdf) \<rparr>"

text \<open>A well-formed detection and one whose box has \<open>xmax < xmin\<close>.\<close>

definition demo_chart :: VisualElement where
  "demo_chart = \<lparr> ve_label = ''Bar Chart'', box_2d = (100, 200, 400, 800), ve_description = ''A chart.'' \<rparr>"

definition demo_malformed :: VisualElement where
  "demo_malformed = \<lparr> ve_label = ''Map'', box_2d = (0, 500, 100, 200), ve_description = ''A map.'' \<rparr>"

definition demo_upside_down :: VisualElement where
  "demo_upside_down = \<lparr> ve_label = ''Photo'', box_2d = (100, 200, 0, 500), ve_description = ''A photo.'' \<rparr>"

text \<open>The demo world with a remote service that answers \<open>{}\<close>.\<close>

definition unvalidated_env :: env where
  "unvalidated_env = demo_env \<lparr> generateContent := (\<lambda>r. Inr (Some ''{}'')) \<rparr>"

text \<open>A session state left over from an earlier scan: one item and a page image.\<close>

definition stale_state :: state where
  "stale_state =
     \<lparr> isGenerating = False,
       originalImage = Some ''data:image/png;base64,T0xE'',
       extractedItems = [\<lparr> item_id = ''old'', label = Some (JStr ''Old''),
                           dataUrl = ''data:image/jpeg;base64,T0xE'',
                           description = Some (JStr ''An earlier item.'') \<rparr>],
       showPreview = False \<rparr>"

text \<open>
  The demo world with a remote service that finds the chart: its answer is a JSON text
  and \<open>JSON.parse\<close> gives the value it denotes.
\<close>

definition chart_text :: string where
  \<open>chart_text = ''[{"label":"Bar Chart","box_2d":[100,200,400,800],"description":"A chart."}]''\<close>

definition chart_env :: env where
  "chart_env =
     demo_env \<lparr> generateContent := (\<lambda>r. Inr (Some chart_text)),
                JSON_parse := (\<lambda>t. if t = chart_text then Some (JArr [ve_json demo_chart]) else None) \<rparr>"

definition chart_item :: ExtractedItem where
  "chart_item =
     \<lparr> item_id = ''u'', label = Some (JStr ''Bar Chart''),
       dataUrl = ''data:image/jpeg;base64,AAAA'',
       description = Some (JStr ''A chart.'') \<rparr>"

section \<open>Running a list of actions\<close>

lemma run_Nil: "run s [] = s"
  by (simp add: run_def)

lemma run_Cons: "run s (a # as) = run (apply_action s a) as"
  by (simp add: run_def)

lemma run_append: "run s (as @ bs) = run (run s as) bs"
  by (simp add: run_def)

section \<open>The detector\<close>

text \<open>
  C4, as the code has it. \<open>detectVisualElements\<close> never throws. It returns the empty
  array when the remote call rejects, when the response has no text or an empty text,
  and when \<open>JSON.parse\<close> throws on the text. A text that parses is returned as parsed:
  the value is not checked against the response schema.
\<close>

theorem detect_collapses_failures:
  "(\<exists>v. snd (detectVisualElements env img) = Inr v) \<and>
   ((\<exists>e. generateContent env (detect_request img) = Inl e) \<longrightarrow>
      snd (detectVisualElements env img) = Inr (JArr [])) \<and>
   (generateContent env (detect_request img) = Inr None \<longrightarrow>
      snd (detectVisualElements env img) = Inr (JArr [])) \<and>
   (generateContent env (detect_request img) = Inr (Some []) \<longrightarrow>
      snd (detectVisualElements env img) = Inr (JArr [])) \<and>
   (\<forall>t. generateContent env (detect_request img) = Inr (Some t) \<and> JSON_parse env t = None \<longrightarrow>
      snd (detectVisualElements env img) = Inr (JArr [])) \<and>
   (\<forall>t v. generateContent env (detect_request img) = Inr (Some t) \<and> t \<noteq> [] \<and>
          JSON_parse env t = Some v \<longrightarrow>
      snd (detectVisualElements env img) = Inr v)"
  by (auto simp: detectVisualElements_def detect_try_def split: sum.splits option.splits)

text \<open>
  The five cases at concrete responses: a rejected call, a response without text, an
  empty text, a text that is not JSON, and the text \<open>{}\<close>.
\<close>

theorem detect_collapses_failures_witness:
  "snd (detectVisualElements (demo_env\<lparr>generateContent := (\<lambda>r. Inl (Rejection ''503''))\<rparr>)
          (Some ''QUJD'')) = Inr (JArr []) \<and>
   snd (detectVisualElements (demo_env\<lparr>generateContent := (\<lambda>r. Inr None)\<rparr>)
          (Some ''QUJD'')) = Inr (JArr []) \<and>
   snd (detectVisualElements (demo_env\<lparr>generateContent := (\<lambda>r. Inr (Some []))\<rparr>)
          (Some ''QUJD'')) = Inr (JArr []) \<and>
   snd (detectVisualElements (demo_env\<lparr>generateContent := (\<lambda>r. Inr (Some ''[{''))\<rparr>)
          (Some ''QUJD'')) = Inr (JArr []) \<and>
   snd (detectVisualElements (demo_env\<lparr>generateContent := (\<lambda>r. Inr (Some ''{}''))\<rparr>)
          (Some ''QUJD'')) = Inr (JObj [])"
  using detect_collapses_failures
          [of "demo_env\<lparr>generateContent := (\<lambda>r. Inl (Rejection ''503''))\<rparr>" "Some ''QUJD''"]
        detect_collapses_failures
          [of "demo_env\<lparr>generateContent := (\<lambda>r. Inr None)\<rparr>" "Some ''QUJD''"]
        detect_collapses_failures
          [of "demo_env\<lparr>generateContent := (\<lambda>r. Inr (Some []))\<rparr>" "Some ''QUJD''"]
        detect_collapses_failures
          [of "demo_env\<lparr>generateContent := (\<lambda>r. Inr (Some ''[{''))\<rparr>" "Some ''QUJD''"]
        detect_collapses_failures
          [of "demo_env\<lparr>generateContent := (\<lambda>r. Inr (Some ''{}''))\<rparr>" "Some ''QUJD''"]
  by (simp add: demo_env_def)

text \<open>
  C4 as stated fails: the remote service answers with the text \<open>{}\<close>, which is JSON and
  does not conform to the response schema (it is not an array); the detector returns
  the parsed object, not the empty array.
\<close>

theorem detect_returns_unvalidated_value:
  "generateContent (demo_env\<lparr>generateContent := (\<lambda>r. Inr (Some ''{}''))\<rparr>)
     (detect_request (Some ''QUJD'')) = Inr (Some ''{}'') \<and>
   JSON_parse (demo_env\<lparr>generateContent := (\<lambda>r. Inr (Some ''{}''))\<rparr>) ''{}'' = Some (JObj []) \<and>
   \<not> conforms detection_schema (JObj []) \<and>
   snd (detectVisualElements (demo_env\<lparr>generateContent := (\<lambda>r. Inr (Some ''{}''))\<rparr>)
          (Some ''QUJD'')) = Inr (JObj []) \<and>
   JObj [] \<noteq> JArr []"
  by (simp add: demo_env_def detectVisualElements_def detect_try_def detection_schema_def)

section \<open>The explainer\<close>

text \<open>
  C5, as the code has it. \<open>explainExtractedImage\<close> never throws. When the remote call
  rejects it returns the constant \<open>Error generating explanation.\<close>; when the response has
  no text or an empty text it returns the constant \<open>No explanation could be generated.\<close>
  Neither depends on the image, the label or the error.
\<close>

theorem explain_fallbacks:
  "(\<exists>s. snd (explainExtractedImage env img lbl) = Inr s) \<and>
   ((\<exists>e. generateContent env (explain_request img lbl) = Inl e) \<longrightarrow>
      snd (explainExtractedImage env img lbl) = Inr ''Error generating explanation.'') \<and>
   (generateContent env (explain_request img lbl) = Inr None \<or>
    generateContent env (explain_request img lbl) = Inr (Some []) \<longrightarrow>
      snd (explainExtractedImage env img lbl) = Inr ''No explanation could be generated.'')"
  by (auto simp: explainExtractedImage_def split: sum.splits option.splits)

theorem explain_fallbacks_witness:
  "snd (explainExtractedImage (demo_env\<lparr>generateContent := (\<lambda>r. Inl (Rejection ''503''))\<rparr>)
          (Some ''QUJD'') ''Chart'') = Inr ''Error generating explanation.'' \<and>
   snd (explainExtractedImage (demo_env\<lparr>generateContent := (\<lambda>r. Inr None)\<rparr>)
          (Some ''QUJD'') ''Chart'') = Inr ''No explanation could be generated.'' \<and>
   snd (explainExtractedImage (demo_env\<lparr>generateContent := (\<lambda>r. Inr (Some []))\<rparr>)
          (Some ''QUJD'') ''Chart'') = Inr ''No explanation could be generated.''"
  using explain_fallbacks
          [of "demo_env\<lparr>generateContent := (\<lambda>r. Inl (Rejection ''503''))\<rparr>" "Some ''QUJD''" "''Chart''"]
        explain_fallbacks
          [of "demo_env\<lparr>generateContent := (\<lambda>r. Inr None)\<rparr>" "Some ''QUJD''" "''Chart''"]
        explain_fallbacks
          [of "demo_env\<lparr>generateContent := (\<lambda>r. Inr (Some []))\<rparr>" "Some ''QUJD''" "''Chart''"]
  by (simp add: demo_env_def)

text \<open>
  C5 as stated fails: there is not one fallback string. The same image and label give
  one string when the call rejects and another when the response has no text.
\<close>

theorem explain_two_fallback_strings:
  "snd (explainExtractedImage (demo_env\<lparr>generateContent := (\<lambda>r. Inl (Rejection ''503''))\<rparr>)
          (Some ''QUJD'') ''Chart'') = Inr ''Error generating explanation.'' \<and>
   snd (explainExtractedImage (demo_env\<lparr>generateContent := (\<lambda>r. Inr None)\<rparr>)
          (Some ''QUJD'') ''Chart'') = Inr ''No explanation could be generated.'' \<and>
   ''Error generating explanation.'' \<noteq> ''No explanation could be generated.''"
  by (simp add: demo_env_def explainExtractedImage_def)

section \<open>The scan\<close>

text \<open>
  C9. A scan invoked without a file performs no action at all and returns at once: the
  loading flag, the preview flag, the page image and the items are what they were.
\<close>

theorem handleScan_without_file:
  "handleScan env pageNumber None = ([], Returns ()) \<and>
   run s (fst (handleScan env pageNumber None)) = s"
  by (simp add: handleScan_def run_def)

section \<open>The rasterizer\<close>

lemma actualPageNum_range:
  "1 \<le> pageCount \<Longrightarrow>
   1 \<le> actualPageNum pageNum pageCount \<and> actualPageNum pageNum pageCount \<le> pageCount"
  by (simp add: actualPageNum_def)

lemma actualPageNum_idem:
  "1 \<le> pageCount \<Longrightarrow>
   actualPageNum (actualPageNum pageNum pageCount) pageCount = actualPageNum pageNum pageCount"
  by (simp add: actualPageNum_def)

text \<open>
  C6. For an image file the page number plays no part in \<open>getPageImage\<close>. For a
  document of at least one page that the PDF library opens, the page asked of the
  library is \<open>actualPageNum\<close>: it is 1 for a request below 1, \<open>numPages\<close> for a request
  above \<open>numPages\<close> and the request itself otherwise, so it lies in \<open>[1, numPages]\<close>; it is
  the only page ever requested, and the result is that of requesting the clamped page
  directly. If every page in range can be fetched and rendered, the rasterizer returns
  an image whatever page was asked for.
\<close>

theorem getPageImage_clamps_page:
  "(prefix ''image/'' (file_type f) \<longrightarrow>
      getPageImage env f pageNum = getPageImage env f pageNum') \<and>
   (\<not> prefix ''image/'' (file_type f) \<and> pdfjsLib env = Some getDocument \<and>
    arrayBuffer env f = Inr data \<and> getDocument data = Inr pdf \<and> 1 \<le> numPages pdf \<longrightarrow>
      actualPageNum pageNum (numPages pdf) =
        (if pageNum < 1 then 1 else if numPages pdf < pageNum then numPages pdf else pageNum) \<and>
      1 \<le> actualPageNum pageNum (numPages pdf) \<and>
      actualPageNum pageNum (numPages pdf) \<le> numPages pdf \<and>
      getPageImage env f pageNum =
        getPageImage env f (actualPageNum pageNum (numPages pdf)) \<and>
      (\<forall>k. PdfGetPage k \<in> set (fst (getPageImage env f pageNum)) \<longleftrightarrow>
           k = actualPageNum pageNum (numPages pdf))) \<and>
   (\<not> prefix ''image/'' (file_type f) \<and> pdfjsLib env = Some getDocument \<and>
    arrayBuffer env f = Inr data \<and> getDocument data = Inr pdf \<and> 1 \<le> numPages pdf \<and>
    (\<forall>k. 1 \<le> k \<and> k \<le> numPages pdf \<longrightarrow>
         (\<exists>page. getPage pdf k = Inr page \<and>
                 render page (getContext env) (getViewport page 2) = None)) \<longrightarrow>
      (\<exists>url. snd (getPageImage env f pageNum) = Returns url))"
proof (intro conjI impI)
  assume "prefix ''image/'' (file_type f)"
  then show "getPageImage env f pageNum = getPageImage env f pageNum'"
    by (simp add: getPageImage_def)
next
  let ?n = "actualPageNum pageNum (numPages pdf)"
  assume "\<not> prefix ''image/'' (file_type f) \<and> pdfjsLib env = Some getDocument \<and>
    arrayBuffer env f = Inr data \<and> getDocument data = Inr pdf \<and> 1 \<le> numPages pdf"
  then have h: "\<not> prefix ''image/'' (file_type f)" "pdfjsLib env = Some getDocument"
    "arrayBuffer env f = Inr data" "getDocument data = Inr pdf" "1 \<le> numPages pdf"
    by simp_all
  show "?n = (if pageNum < 1 then 1 else if numPages pdf < pageNum then numPages pdf else pageNum)"
    using h(5) by (simp add: actualPageNum_def)
  show "1 \<le> ?n" "?n \<le> numPages pdf"
    using actualPageNum_range [OF h(5)] by simp_all
  show "getPageImage env f pageNum = getPageImage env f ?n"
    using h by (simp add: getPageImage_def actualPageNum_idem)
  show "\<forall>k. PdfGetPage k \<in> set (fst (getPageImage env f pageNum)) \<longleftrightarrow> k = ?n"
    using h by (auto simp: getPageImage_def Let_def split: sum.splits)
next
  let ?n = "actualPageNum pageNum (numPages pdf)"
  assume "\<not> prefix ''image/'' (file_type f) \<and> pdfjsLib env = Some getDocument \<and>
    arrayBuffer env f = Inr data \<and> getDocument data = Inr pdf \<and> 1 \<le> numPages pdf \<and>
    (\<forall>k. 1 \<le> k \<and> k \<le> numPages pdf \<longrightarrow>
         (\<exists>page. getPage pdf k = Inr page \<and>
                 render page (getContext env) (getViewport page 2) = None))"
  then have h: "\<not> prefix ''image/'' (file_type f)" "pdfjsLib env = Some getDocument"
    "arrayBuffer env f = Inr data" "getDocument data = Inr pdf" "1 \<le> numPages pdf"
    and a: "\<forall>k. 1 \<le> k \<and> k \<le> numPages pdf \<longrightarrow>
         (\<exists>page. getPage pdf k = Inr page \<and>
                 render page (getContext env) (getViewport page 2) = None)"
    by simp_all
  from a actualPageNum_range [OF h(5), of pageNum] obtain page where
    p: "getPage pdf ?n = Inr page" "render page (getContext env) (getViewport page 2) = None"
    by blast
  show "\<exists>url. snd (getPageImage env f pageNum) = Returns url"
    using h p by (simp add: getPageImage_def Let_def)
qed

text \<open>
  On the ten-page document: page 0 resolves to page 1 and page 15 to page 10, and both
  requests return an image; on an image file pages 7 and 1 give the same result.
\<close>

lemma demo_file_is_image: "prefix ''image/'' (file_type demo_file)"
  by (simp add: demo_file_def)

lemma demo_pdf_opens:
  "\<not> prefix ''image/'' (file_type demo_pdf_file) \<and>
   pdfjsLib demo_pdf_env = Some (\<lambda>data. Inr demo_pdf) \<and>
   arrayBuffer demo_pdf_env demo_pdf_file = Inr (file_bytes demo_pdf_file) \<and>
   (\<lambda>data. Inr demo_pdf) (file_bytes demo_pdf_file) = Inr demo_pdf \<and>
   1 \<le> numPages demo_pdf"
  by (simp add: demo_pdf_file_def demo_pdf_env_def demo_env_def demo_pdf_def)

lemma demo_pdf_renders:
  "\<not> prefix ''image/'' (file_type demo_pdf_file) \<and>
   pdfjsLib demo_pdf_env = Some (\<lambda>data. Inr demo_pdf) \<and>
   arrayBuffer demo_pdf_env demo_pdf_file = Inr (file_bytes demo_pdf_file) \<and>
   (\<lambda>data. Inr demo_pdf) (file_bytes demo_pdf_file) = Inr demo_pdf \<and>
   1 \<le> numPages demo_pdf \<and>
   (\<forall>k. 1 \<le> k \<and> k \<le> numPages demo_pdf \<longrightarrow>
      (\<exists>page. getPage demo_pdf k = Inr page \<and>
              render page (getContext demo_pdf_env) (getViewport page 2) = None))"
  by (simp add: demo_pdf_file_def demo_pdf_env_def demo_env_def demo_pdf_def demo_page_def)

theorem getPageImage_clamps_page_witness:
  "getPageImage demo_env demo_file 7 = getPageImage demo_env demo_file 1 \<and>
   actualPageNum 0 (numPages demo_pdf) = 1 \<and>
   actualPageNum 15 (numPages demo_pdf) = 10 \<and>
   getPageImage demo_pdf_env demo_pdf_file 0 = getPageImage demo_pdf_env demo_pdf_file 1 \<and>
   getPageImage demo_pdf_env demo_pdf_file 15 = getPageImage demo_pdf_env demo_pdf_file 10 \<and>
   (\<exists>url. snd (getPageImage demo_pdf_env demo_pdf_file 0) = Returns url) \<and>
   (\<exists>url. snd (getPageImage demo_pdf_env demo_pdf_file 15) = Returns url)"
proof -
  note img = getPageImage_clamps_page
               [where f = demo_file and env = demo_env and pageNum = 7 and pageNum' = 1,
                THEN conjunct1, THEN mp, OF demo_file_is_image]
  note lo = getPageImage_clamps_page
              [where f = demo_pdf_file and env = demo_pdf_env and pageNum = 0
                 and getDocument = "\<lambda>data. Inr demo_pdf" and data = "file_bytes demo_pdf_file"
                 and pdf = demo_pdf,
               THEN conjunct2, THEN conjunct1, THEN mp, OF demo_pdf_opens]
  note hi = getPageImage_clamps_page
              [where f = demo_pdf_file and env = demo_pdf_env and pageNum = 15
                 and getDocument = "\<lambda>data. Inr demo_pdf" and data = "file_bytes demo_pdf_file"
                 and pdf = demo_pdf,
               THEN conjunct2, THEN conjunct1, THEN mp, OF demo_pdf_opens]
  note lo_ok = getPageImage_clamps_page
                 [where f = demo_pdf_file and env = demo_pdf_env and pageNum = 0
                    and getDocument = "\<lambda>data. Inr demo_pdf" and data = "file_bytes demo_pdf_file"
                    and pdf = demo_pdf,
                  THEN conjunct2, THEN conjunct2, THEN mp, OF demo_pdf_renders]
  note hi_ok = getPageImage_clamps_page
                 [where f = demo_pdf_file and env = demo_pdf_env and pageNum = 15
                    and getDocument = "\<lambda>data. Inr demo_pdf" and data = "file_bytes demo_pdf_file"
                    and pdf = demo_pdf,
                  THEN conjunct2, THEN conjunct2, THEN mp, OF demo_pdf_renders]
  have n: "numPages demo_pdf = 10"
    by (simp add: demo_pdf_def)
  from lo have n0: "actualPageNum 0 (numPages demo_pdf) = 1"
    by (simp add: n)
  from hi have n15: "actualPageNum 15 (numPages demo_pdf) = 10"
    by (simp add: n)
  from lo have "getPageImage demo_pdf_env demo_pdf_file 0 =
      getPageImage demo_pdf_env demo_pdf_file (actualPageNum 0 (numPages demo_pdf))"
    by (elim conjE)
  then have g0: "getPageImage demo_pdf_env demo_pdf_file 0 =
      getPageImage demo_pdf_env demo_pdf_file 1"
    by (simp only: n0)
  from hi have "getPageImage demo_pdf_env demo_pdf_file 15 =
      getPageImage demo_pdf_env demo_pdf_file (actualPageNum 15 (numPages demo_pdf))"
    by (elim conjE)
  then have g15: "getPageImage demo_pdf_env demo_pdf_file 15 =
      getPageImage demo_pdf_env demo_pdf_file 10"
    by (simp only: n15)
  from img n0 n15 g0 g15 lo_ok hi_ok show ?thesis
    by (intro conjI)
qed

section \<open>The crop loop on typed detections\<close>

lemma crop_loop_extends:
  "crop_loop env img dets cv items = Inr res \<Longrightarrow>
   \<exists>new. res = items @ new \<and> length new = length dets"
proof (induction dets arbitrary: cv items res)
  case Nil
  then show ?case by simp
next
  case (Cons det dets)
  from Cons.prems obtain cv' it where
    "crop_loop env img dets cv' (items @ [it]) = Inr res"
    by (auto simp: Let_def split: sum.splits)
  from Cons.IH [OF this] obtain new where "res = (items @ [it]) @ new" "length new = length dets"
    by blast
  then have "res = items @ (it # new) \<and> length (it # new) = length (det # dets)" by simp
  then show ?case by blast
qed

lemma crop_loop_typed_step:
  "crop_loop env img (ve_json d # dets) cv items =
   crop_loop env img dets (cv @ crop_ops env img (box_values d))
     (items @ [\<lparr> item_id = randomUUID env (length items),
                  label = Some (JStr (ve_label d)),
                  dataUrl = toDataURL env (cv @ crop_ops env img (box_values d)) ''image/jpeg'' (9 / 10),
                  description = Some (JStr (ve_description d)) \<rparr>])"
  by (cases "box_2d d")
     (simp add: ve_json_def box_values_def destructure4_def nth_opt_def Let_def)

lemma crop_ops_typed:
  "getContext env \<Longrightarrow> crop_ops env img (box_values d) = spec_crop img d"
  by (cases "box_2d d")
     (simp add: crop_ops_def box_values_def spec_crop_def spec_copy_def spec_rect_def
        crop_left_def crop_top_def crop_width_def crop_height_def to_number_def Let_def)

lemma crop_loop_typed_fields:
  "\<exists>new. crop_loop env img (map ve_json ds) cv items = Inr (items @ new) \<and>
         length new = length ds \<and>
         map label new = map (\<lambda>d. Some (JStr (ve_label d))) ds \<and>
         map description new = map (\<lambda>d. Some (JStr (ve_description d))) ds"
proof (induction ds arbitrary: cv items)
  case Nil
  then show ?case by simp
next
  case (Cons d ds)
  let ?cv = "cv @ crop_ops env img (box_values d)"
  let ?it = "\<lparr> item_id = randomUUID env (length items),
                  label = Some (JStr (ve_label d)),
                  dataUrl = toDataURL env ?cv ''image/jpeg'' (9 / 10),
                  description = Some (JStr (ve_description d)) \<rparr>"
  from Cons.IH [of ?cv "items @ [?it]"] obtain new where
    n: "crop_loop env img (map ve_json ds) ?cv (items @ [?it]) = Inr ((items @ [?it]) @ new)"
       "length new = length ds"
       "map label new = map (\<lambda>d. Some (JStr (ve_label d))) ds"
       "map description new = map (\<lambda>d. Some (JStr (ve_description d))) ds"
    by blast
  have "crop_loop env img (map ve_json (d # ds)) cv items = Inr (items @ (?it # new))"
    using n(1) by (simp add: crop_loop_typed_step del: crop_loop.simps)
  moreover have "length (?it # new) = length (d # ds)" using n(2) by simp
  moreover have "map label (?it # new) = map (\<lambda>d. Some (JStr (ve_label d))) (d # ds)"
    using n(3) by simp
  moreover have "map description (?it # new) = map (\<lambda>d. Some (JStr (ve_description d))) (d # ds)"
    using n(4) by simp
  ultimately show ?case by blast
qed

lemma crop_loop_typed_urls:
  "crop_loop env img (map ve_json ds) cv items = Inr res \<Longrightarrow> i < length ds \<Longrightarrow>
   dataUrl (res ! (length items + i)) =
     toDataURL env (cv @ concat (map (\<lambda>d. crop_ops env img (box_values d)) (take (Suc i) ds)))
       ''image/jpeg'' (9 / 10)"
proof (induction ds arbitrary: cv items i)
  case Nil
  then show ?case by simp
next
  case (Cons d ds)
  let ?cv = "cv @ crop_ops env img (box_values d)"
  let ?it = "\<lparr> item_id = randomUUID env (length items),
                  label = Some (JStr (ve_label d)),
                  dataUrl = toDataURL env ?cv ''image/jpeg'' (9 / 10),
                  description = Some (JStr (ve_description d)) \<rparr>"
  have step: "crop_loop env img (map ve_json ds) ?cv (items @ [?it]) = Inr res"
    using Cons.prems(1) by (simp add: crop_loop_typed_step del: crop_loop.simps)
  show ?case
  proof (cases i)
    case 0
    from crop_loop_extends [OF step] obtain new where "res = (items @ [?it]) @ new" by blast
    then have "res ! length items = ?it" by (simp add: nth_append)
    with 0 show ?thesis by simp
  next
    case (Suc j)
    with Cons.prems(2) have "j < length ds" by simp
    from Cons.IH [OF step this] Suc show ?thesis by simp
  qed
qed

lemma crop_all_typed:
  "crop_all env img (JArr (map ve_json ds)) = crop_loop env img (map ve_json ds) [] []"
  by (simp add: crop_all_def)

lemma crop_width_typed:
  "crop_width env img (Some (JNum xmin)) (Some (JNum xmax)) =
     Num ((xmax - xmin) / 1000 * of_nat (img_width img))"
  by (simp add: crop_width_def to_number_def)

lemma crop_height_typed:
  "crop_height env img (Some (JNum ymin)) (Some (JNum ymax)) =
     Num ((ymax - ymin) / 1000 * of_nat (img_height img))"
  by (simp add: crop_height_def to_number_def)

text \<open>
  C3. On a list of \<open>N\<close> detections the loop does not throw and produces \<open>N\<close> items; the
  item at each index carries the label and the description of the detection at that
  index.
\<close>

theorem crop_all_preserves_order:
  "\<exists>items. crop_all env img (JArr (map ve_json detections)) = Inr items \<and>
           length items = length detections \<and>
           map label items = map (\<lambda>d. Some (JStr (ve_label d))) detections \<and>
           map description items = map (\<lambda>d. Some (JStr (ve_description d))) detections \<and>
           (\<forall>i<length detections.
              label (items ! i) = Some (JStr (ve_label (detections ! i))) \<and>
              description (items ! i) = Some (JStr (ve_description (detections ! i))))"
proof -
  from crop_loop_typed_fields [of env img detections "[]" "[]"] obtain items where
    n: "crop_loop env img (map ve_json detections) [] [] = Inr items"
       "length items = length detections"
       "map label items = map (\<lambda>d. Some (JStr (ve_label d))) detections"
       "map description items = map (\<lambda>d. Some (JStr (ve_description d))) detections"
    by auto
  have "label (items ! i) = Some (JStr (ve_label (detections ! i))) \<and>
        description (items ! i) = Some (JStr (ve_description (detections ! i)))"
    if "i < length detections" for i
  proof -
    have "label (items ! i) = map label items ! i" using that n(2) by simp
    moreover have "description (items ! i) = map description items ! i" using that n(2) by simp
    ultimately show ?thesis using that by (simp add: n(3) n(4))
  qed
  with n show ?thesis by (simp add: crop_all_typed)
qed

theorem crop_all_preserves_order_witness:
  "\<exists>items. crop_all demo_env demo_image (JArr (map ve_json [demo_chart, demo_malformed])) = Inr items \<and>
      length items = 2 \<and>
      map label items = [Some (JStr ''Bar Chart''), Some (JStr ''Map'')] \<and>
      map description items = [Some (JStr ''A chart.''), Some (JStr ''A map.'')]"
proof -
  from crop_all_preserves_order [of demo_env demo_image "[demo_chart, demo_malformed]"]
  obtain items where
    "crop_all demo_env demo_image (JArr (map ve_json [demo_chart, demo_malformed])) = Inr items"
    "length items = length [demo_chart, demo_malformed]"
    "map label items = map (\<lambda>d. Some (JStr (ve_label d))) [demo_chart, demo_malformed]"
    "map description items = map (\<lambda>d. Some (JStr (ve_description d))) [demo_chart, demo_malformed]"
    by blast
  then show ?thesis by (simp add: demo_chart_def demo_malformed_def)
qed

text \<open>
  C1. With a 2D context, the canvas operations of one turn of the loop are those of
  \<open>spec_crop\<close>: the canvas is sized to \<open>(width, height)\<close> and the region of the page at
  \<open>(left, top)\<close> of that extent is drawn at the origin with the same extent, all four
  numbers by the formulas of \<open>spec_rect\<close>. Over a list of detections, the crop of item
  \<open>i\<close> is the encoding of the canvas after exactly these operations for the detections
  up to \<open>i\<close>.
\<close>

theorem crop_by_formula_one_to_one:
  "getContext env \<Longrightarrow>
   crop_ops env img (box_values d) = spec_crop img d \<and>
   (\<exists>items. crop_all env img (JArr (map ve_json detections)) = Inr items \<and>
      length items = length detections \<and>
      (\<forall>i<length detections.
         dataUrl (items ! i) =
           toDataURL env (concat (map (spec_crop img) (take (Suc i) detections)))
             ''image/jpeg'' (9 / 10)))"
proof -
  assume ctx: "getContext env"
  from crop_loop_typed_fields [of env img detections "[]" "[]"] obtain items where
    n: "crop_loop env img (map ve_json detections) [] [] = Inr items"
       "length items = length detections"
    by auto
  have "dataUrl (items ! i) =
          toDataURL env (concat (map (spec_crop img) (take (Suc i) detections)))
            ''image/jpeg'' (9 / 10)"
    if "i < length detections" for i
    using crop_loop_typed_urls [OF n(1) that] ctx by (simp add: crop_ops_typed)
  with n ctx show ?thesis by (simp add: crop_all_typed crop_ops_typed)
qed

text \<open>The chart of the 800 by 600 page: left 160, top 60, width 480, height 180.\<close>

theorem crop_by_formula_one_to_one_witness:
  "box_2d demo_chart = (100, 200, 400, 800) \<and>
   crop_ops demo_env demo_image (box_values demo_chart) =
     [SetWidth (Num 480), SetHeight (Num 180),
      ClearRect (Num 0) (Num 0) (Num 480) (Num 180),
      DrawImage demo_image (Num 160) (Num 60) (Num 480) (Num 180)
                           (Num 0) (Num 0) (Num 480) (Num 180)] \<and>
   (\<exists>items. crop_all demo_env demo_image (JArr (map ve_json [demo_chart])) = Inr items \<and>
      length items = 1 \<and>
      dataUrl (items ! 0) =
        toDataURL demo_env
          [SetWidth (Num 480), SetHeight (Num 180),
           ClearRect (Num 0) (Num 0) (Num 480) (Num 180),
           DrawImage demo_image (Num 160) (Num 60) (Num 480) (Num 180)
                                (Num 0) (Num 0) (Num 480) (Num 180)]
          ''image/jpeg'' (9 / 10))"
proof -
  have ctx: "getContext demo_env" by (simp add: demo_env_def)
  have sc: "spec_crop demo_image demo_chart =
     [SetWidth (Num 480), SetHeight (Num 180),
      ClearRect (Num 0) (Num 0) (Num 480) (Num 180),
      DrawImage demo_image (Num 160) (Num 60) (Num 480) (Num 180)
                           (Num 0) (Num 0) (Num 480) (Num 180)]"
    by (simp add: spec_crop_def spec_copy_def spec_rect_def demo_chart_def demo_image_def)
  from crop_by_formula_one_to_one [OF ctx, of demo_image demo_chart "[demo_chart]"]
  obtain items where
    o: "crop_ops demo_env demo_image (box_values demo_chart) = spec_crop demo_image demo_chart"
    and i: "crop_all demo_env demo_image (JArr (map ve_json [demo_chart])) = Inr items"
       "length items = length [demo_chart]"
    and u: "\<forall>i<length [demo_chart]. dataUrl (items ! i) =
           toDataURL demo_env (concat (map (spec_crop demo_image) (take (Suc i) [demo_chart])))
             ''image/jpeg'' (9 / 10)"
    by blast
  from u have "dataUrl (items ! 0) =
      toDataURL demo_env (spec_crop demo_image demo_chart) ''image/jpeg'' (9 / 10)"
    by simp
  with o i show ?thesis by (simp add: sc) (simp add: demo_chart_def)
qed

lemma crop_ops_shape:
  "box_2d d = (ymin, xmin, ymax, xmax) \<Longrightarrow>
   crop_ops env img (box_values d) =
     [SetWidth (crop_width env img (Some (JNum xmin)) (Some (JNum xmax))),
      SetHeight (crop_height env img (Some (JNum ymin)) (Some (JNum ymax)))] @
     (if getContext env
      then [ClearRect (Num 0) (Num 0)
              (crop_width env img (Some (JNum xmin)) (Some (JNum xmax)))
              (crop_height env img (Some (JNum ymin)) (Some (JNum ymax))),
            DrawImage img
              (crop_left env img (Some (JNum xmin))) (crop_top env img (Some (JNum ymin)))
              (crop_width env img (Some (JNum xmin)) (Some (JNum xmax)))
              (crop_height env img (Some (JNum ymin)) (Some (JNum ymax)))
              (Num 0) (Num 0)
              (crop_width env img (Some (JNum xmin)) (Some (JNum xmax)))
              (crop_height env img (Some (JNum ymin)) (Some (JNum ymax)))]
      else [])"
  by (simp add: crop_ops_def box_values_def Let_def)

text \<open>
  C2, as the code has it. Whatever the boxes, the loop does not throw and the item of
  each detection is at its index. For a detection with box \<open>(ymin, xmin, ymax, xmax)\<close>
  the width and height are the values of the formulas, with nothing applied to them
  afterwards; they are what the canvas width and height are set to and, when there is a
  2D context, what \<open>clearRect\<close> and \<open>drawImage\<close> receive as extents (without a context
  nothing is drawn). For \<open>xmax < xmin\<close> the width is not positive, for \<open>ymax < ymin\<close> the
  height is not positive; the sign is stated this way because it then holds of doubles
  as well, where a tiny difference divided by 1000 can underflow to a zero.
\<close>

theorem malformed_box_passed_unclamped:
  "(\<exists>items. crop_all env img (JArr (map ve_json detections)) = Inr items \<and>
      length items = length detections \<and>
      (\<forall>i<length detections. label (items ! i) = Some (JStr (ve_label (detections ! i))))) \<and>
   (box_2d d = (ymin, xmin, ymax, xmax) \<longrightarrow>
      crop_width env img (Some (JNum xmin)) (Some (JNum xmax)) =
        Num ((xmax - xmin) / 1000 * of_nat (img_width img)) \<and>
      crop_height env img (Some (JNum ymin)) (Some (JNum ymax)) =
        Num ((ymax - ymin) / 1000 * of_nat (img_height img)) \<and>
      crop_ops env img (box_values d) =
        [SetWidth (crop_width env img (Some (JNum xmin)) (Some (JNum xmax))),
         SetHeight (crop_height env img (Some (JNum ymin)) (Some (JNum ymax)))] @
        (if getContext env
         then [ClearRect (Num 0) (Num 0)
                 (crop_width env img (Some (JNum xmin)) (Some (JNum xmax)))
                 (crop_height env img (Some (JNum ymin)) (Some (JNum ymax))),
               DrawImage img
                 (crop_left env img (Some (JNum xmin))) (crop_top env img (Some (JNum ymin)))
                 (crop_width env img (Some (JNum xmin)) (Some (JNum xmax)))
                 (crop_height env img (Some (JNum ymin)) (Some (JNum ymax)))
                 (Num 0) (Num 0)
                 (crop_width env img (Some (JNum xmin)) (Some (JNum xmax)))
                 (crop_height env img (Some (JNum ymin)) (Some (JNum ymax)))]
         else []) \<and>
      (xmax < xmin \<longrightarrow> (xmax - xmin) / 1000 * of_nat (img_width img) \<le> 0) \<and>
      (ymax < ymin \<longrightarrow> (ymax - ymin) / 1000 * of_nat (img_height img) \<le> 0))"
proof (intro conjI impI)
  from crop_loop_typed_fields [of env img detections "[]" "[]"] obtain items where
    n: "crop_loop env img (map ve_json detections) [] [] = Inr items"
       "length items = length detections"
       "map label items = map (\<lambda>d. Some (JStr (ve_label d))) detections"
    by auto
  have "label (items ! i) = Some (JStr (ve_label (detections ! i)))"
    if "i < length detections" for i
  proof -
    have "label (items ! i) = map label items ! i" using that n(2) by simp
    then show ?thesis using that by (simp add: n(3))
  qed
  with n show "\<exists>items. crop_all env img (JArr (map ve_json detections)) = Inr items \<and>
      length items = length detections \<and>
      (\<forall>i<length detections. label (items ! i) = Some (JStr (ve_label (detections ! i))))"
    by (simp add: crop_all_typed)
next
  show "crop_width env img (Some (JNum xmin)) (Some (JNum xmax)) =
        Num ((xmax - xmin) / 1000 * of_nat (img_width img))"
    by (rule crop_width_typed)
next
  show "crop_height env img (Some (JNum ymin)) (Some (JNum ymax)) =
        Num ((ymax - ymin) / 1000 * of_nat (img_height img))"
    by (rule crop_height_typed)
next
  assume "box_2d d = (ymin, xmin, ymax, xmax)"
  then show "crop_ops env img (box_values d) =
        [SetWidth (crop_width env img (Some (JNum xmin)) (Some (JNum xmax))),
         SetHeight (crop_height env img (Some (JNum ymin)) (Some (JNum ymax)))] @
        (if getContext env
         then [ClearRect (Num 0) (Num 0)
                 (crop_width env img (Some (JNum xmin)) (Some (JNum xmax)))
                 (crop_height env img (Some (JNum ymin)) (Some (JNum ymax))),
               DrawImage img
                 (crop_left env img (Some (JNum xmin))) (crop_top env img (Some (JNum ymin)))
                 (crop_width env img (Some (JNum xmin)) (Some (JNum xmax)))
                 (crop_height env img (Some (JNum ymin)) (Some (JNum ymax)))
                 (Num 0) (Num 0)
                 (crop_width env img (Some (JNum xmin)) (Some (JNum xmax)))
                 (crop_height env img (Some (JNum ymin)) (Some (JNum ymax)))]
         else [])"
    by (rule crop_ops_shape)
next
  assume "xmax < xmin"
  then show "(xmax - xmin) / 1000 * of_nat (img_width img) \<le> 0"
    by (simp add: mult_le_0_iff)
next
  assume "ymax < ymin"
  then show "(ymax - ymin) / 1000 * of_nat (img_height img) \<le> 0"
    by (simp add: mult_le_0_iff)
qed

text \<open>
  The box \<open>[0, 500, 100, 200]\<close> on the 800 by 600 page, as the second of two detections,
  and the box \<open>[100, 200, 0, 500]\<close>.
\<close>

lemma demo_malformed_box: "box_2d demo_malformed = (0, 500, 100, 200)"
  by (simp add: demo_malformed_def)

lemma demo_upside_down_box: "box_2d demo_upside_down = (100, 200, 0, 500)"
  by (simp add: demo_upside_down_def)

theorem malformed_box_passed_unclamped_witness:
  "(\<exists>items. crop_all demo_env demo_image (JArr (map ve_json [demo_chart, demo_malformed])) = Inr items \<and>
      length items = 2 \<and> label (items ! 1) = Some (JStr ''Map'')) \<and>
   crop_width demo_env demo_image (Some (JNum 500)) (Some (JNum 200)) = Num (- 240) \<and>
   crop_ops demo_env demo_image (box_values demo_malformed) =
     [SetWidth (Num (- 240)), SetHeight (Num 60),
      ClearRect (Num 0) (Num 0) (Num (- 240)) (Num 60),
      DrawImage demo_image (Num 400) (Num 0) (Num (- 240)) (Num 60)
                           (Num 0) (Num 0) (Num (- 240)) (Num 60)] \<and>
   crop_height demo_env demo_image (Some (JNum 100)) (Some (JNum 0)) = Num (- 60) \<and>
   (- 240 :: rat) \<le> 0 \<and> (- 60 :: rat) \<le> 0"
proof -
  note a = malformed_box_passed_unclamped
             [of demo_env demo_image "[demo_chart, demo_malformed]" demo_malformed 0 500 100 200]
  note b = malformed_box_passed_unclamped
             [of demo_env demo_image "[]" demo_upside_down 100 200 0 500]
  from a obtain items where
    i: "crop_all demo_env demo_image (JArr (map ve_json [demo_chart, demo_malformed])) = Inr items"
       "length items = length [demo_chart, demo_malformed]"
       "\<forall>i<length [demo_chart, demo_malformed].
          label (items ! i) = Some (JStr (ve_label ([demo_chart, demo_malformed] ! i)))"
    by blast
  from i(3) have "label (items ! 1) = Some (JStr (ve_label demo_malformed))" by simp
  with i have 1: "\<exists>items. crop_all demo_env demo_image
        (JArr (map ve_json [demo_chart, demo_malformed])) = Inr items \<and>
      length items = 2 \<and> label (items ! 1) = Some (JStr ''Map'')"
    by (simp add: demo_malformed_def)
  note a' = a [THEN conjunct2, THEN mp, OF demo_malformed_box]
  note b' = b [THEN conjunct2, THEN mp, OF demo_upside_down_box]
  have ctx: "getContext demo_env" by (simp add: demo_env_def)
  from a' have w: "crop_width demo_env demo_image (Some (JNum 500)) (Some (JNum 200)) = Num (- 240)"
    by (simp add: demo_image_def)
  from a' have h: "crop_height demo_env demo_image (Some (JNum 0)) (Some (JNum 100)) = Num 60"
    by (simp add: demo_image_def)
  have l: "crop_left demo_env demo_image (Some (JNum 500)) = Num 400"
    by (simp add: crop_left_def to_number_def demo_image_def)
  have t: "crop_top demo_env demo_image (Some (JNum 0)) = Num 0"
    by (simp add: crop_top_def to_number_def demo_image_def)
  from a' have "crop_ops demo_env demo_image (box_values demo_malformed) =
        [SetWidth (crop_width demo_env demo_image (Some (JNum 500)) (Some (JNum 200))),
         SetHeight (crop_height demo_env demo_image (Some (JNum 0)) (Some (JNum 100)))] @
        (if getContext demo_env
         then [ClearRect (Num 0) (Num 0)
                 (crop_width demo_env demo_image (Some (JNum 500)) (Some (JNum 200)))
                 (crop_height demo_env demo_image (Some (JNum 0)) (Some (JNum 100))),
               DrawImage demo_image
                 (crop_left demo_env demo_image (Some (JNum 500)))
                 (crop_top demo_env demo_image (Some (JNum 0)))
                 (crop_width demo_env demo_image (Some (JNum 500)) (Some (JNum 200)))
                 (crop_height demo_env demo_image (Some (JNum 0)) (Some (JNum 100)))
                 (Num 0) (Num 0)
                 (crop_width demo_env demo_image (Some (JNum 500)) (Some (JNum 200)))
                 (crop_height demo_env demo_image (Some (JNum 0)) (Some (JNum 100)))]
         else [])"
    by (elim conjE)
  then have 2: "crop_ops demo_env demo_image (box_values demo_malformed) =
     [SetWidth (Num (- 240)), SetHeight (Num 60),
      ClearRect (Num 0) (Num 0) (Num (- 240)) (Num 60),
      DrawImage demo_image (Num 400) (Num 0) (Num (- 240)) (Num 60)
                           (Num 0) (Num 0) (Num (- 240)) (Num 60)]"
    by (simp only: w h l t ctx if_True append_Cons append_Nil)
  from b' have 3: "crop_height demo_env demo_image (Some (JNum 100)) (Some (JNum 0)) = Num (- 60)"
    by (simp add: demo_image_def)
  from 1 w 2 3 show ?thesis by simp
qed

text \<open>
  C2 as stated fails: for the box \<open>[0, 500, 100, 200]\<close> on the 800 by 600 page the canvas
  width is set to \<open>-240\<close> and the same \<open>-240\<close> is the extent handed to \<open>drawImage\<close>; the
  crop is not clamped to zero area.
\<close>

theorem malformed_box_negative_width:
  "box_2d demo_malformed = (0, 500, 100, 200) \<and>
   crop_ops demo_env demo_image (box_values demo_malformed) =
     [SetWidth (Num (- 240)), SetHeight (Num 60),
      ClearRect (Num 0) (Num 0) (Num (- 240)) (Num 60),
      DrawImage demo_image (Num 400) (Num 0) (Num (- 240)) (Num 60)
                           (Num 0) (Num 0) (Num (- 240)) (Num 60)] \<and>
   Num (- 240) \<noteq> Num 0"
  by (simp add: demo_malformed_def demo_env_def demo_image_def box_values_def crop_ops_def
        crop_left_def crop_top_def crop_width_def crop_height_def to_number_def Let_def)

section \<open>Determinism of the crops\<close>

lemma to_number_same:
  "ToNumber e1 = ToNumber e2 \<Longrightarrow> to_number e1 v = to_number e2 v"
  by (simp add: to_number_def split: option.splits json.splits)

lemma crop_ops_same:
  "getContext e1 = getContext e2 \<Longrightarrow> ToNumber e1 = ToNumber e2 \<Longrightarrow>
   crop_ops e1 img box = crop_ops e2 img box"
  by (cases box)
     (simp add: crop_ops_def crop_left_def crop_top_def crop_width_def crop_height_def
        to_number_same [of e1 e2] Let_def)

lemma crop_loop_same_crops:
  "toDataURL e1 = toDataURL e2 \<Longrightarrow> getContext e1 = getContext e2 \<Longrightarrow>
   ToNumber e1 = ToNumber e2 \<Longrightarrow> map crop_of items1 = map crop_of items2 \<Longrightarrow>
   map_sum id (map crop_of) (crop_loop e1 img dets cv items1) =
   map_sum id (map crop_of) (crop_loop e2 img dets cv items2)"
proof (induction dets arbitrary: cv items1 items2)
  case Nil
  then show ?case by simp
next
  case (Cons det dets)
  have ops: "crop_ops e1 img box = crop_ops e2 img box" for box
    using Cons.prems(2,3) by (rule crop_ops_same)
  show ?case
    using Cons.prems Cons.IH
    by (auto simp: Let_def ops crop_of_def split: sum.splits)
qed

text \<open>
  C7. The crops depend on the page image, the detections and the canvas primitives
  only: two environments that agree on the canvas (context, encoder) and on the numeric
  coercion, and differ in anything else (the remote service, the identifiers handed
  out, the file reader, the PDF library), produce the same labels, crops and
  descriptions, or throw the same error. The loop performs no action: its result is a
  value, and no remote call is among its effects.
\<close>

theorem crops_deterministic:
  "toDataURL e1 = toDataURL e2 \<Longrightarrow> getContext e1 = getContext e2 \<Longrightarrow>
   ToNumber e1 = ToNumber e2 \<Longrightarrow>
   map_sum id (map crop_of) (crop_all e1 img detections) =
   map_sum id (map crop_of) (crop_all e2 img detections)"
  using crop_loop_same_crops [of e1 e2 "[]" "[]" img _ "[]"]
  by (auto simp: crop_all_def split: sum.splits)

theorem crops_deterministic_witness:
  "map_sum id (map crop_of)
     (crop_all (demo_env\<lparr>generateContent := (\<lambda>r. Inl (Rejection ''503'')),
                          randomUUID := (\<lambda>k. replicate (Suc k) CHR ''v'')\<rparr>)
        demo_image (JArr (map ve_json [demo_chart, demo_malformed]))) =
   map_sum id (map crop_of)
     (crop_all demo_env demo_image (JArr (map ve_json [demo_chart, demo_malformed])))"
  using crops_deterministic
          [of "demo_env\<lparr>generateContent := (\<lambda>r. Inl (Rejection ''503'')),
                          randomUUID := (\<lambda>k. replicate (Suc k) CHR ''v'')\<rparr>" demo_env]
  by simp

section \<open>A scan that fails\<close>

lemma run_silent:
  "(\<And>a s. a \<in> set as \<Longrightarrow> apply_action s a = s) \<Longrightarrow> run s as = s"
  by (induction as arbitrary: s) (simp_all add: run_def)

lemma external_silent: "is_external a \<Longrightarrow> apply_action s a = s"
  by (cases a) simp_all

lemma external_no_write: "is_external a \<Longrightarrow> \<not> writes_items_or_loading a"
  by (cases a) simp_all

lemma getPageImage_external:
  "a \<in> set (fst (getPageImage env f p)) \<Longrightarrow> is_external a"
  by (auto simp: getPageImage_def Let_def split: if_splits option.splits sum.splits)

lemma detect_actions:
  "a \<in> set (fst (detectVisualElements env b)) \<Longrightarrow>
   (\<exists>r. a = RemoteCall r) \<or> (\<exists>m e. a = ConsoleError m e)"
  by (auto simp: detectVisualElements_def split: sum.splits)

lemma detect_silent:
  "a \<in> set (fst (detectVisualElements env b)) \<Longrightarrow> apply_action s a = s"
  using detect_actions [of a env b] by auto

lemma detect_no_write:
  "a \<in> set (fst (detectVisualElements env b)) \<Longrightarrow> \<not> writes_items_or_loading a"
  using detect_actions [of a env b] by auto

lemma run_no_writes:
  "(\<And>a. a \<in> set as \<Longrightarrow> \<not> writes_items_or_loading a) \<Longrightarrow>
   isGenerating (run s as) = isGenerating s \<and> extractedItems (run s as) = extractedItems s"
proof (induction as arbitrary: s)
  case Nil
  then show ?case by (simp add: run_def)
next
  case (Cons a as)
  have "\<not> writes_items_or_loading a" using Cons.prems by simp
  then have "isGenerating (apply_action s a) = isGenerating s \<and>
             extractedItems (apply_action s a) = extractedItems s"
    by (cases a) simp_all
  moreover have "isGenerating (run (apply_action s a) as) = isGenerating (apply_action s a) \<and>
                 extractedItems (run (apply_action s a) as) = extractedItems (apply_action s a)"
    using Cons.prems by (intro Cons.IH) simp
  ultimately show ?case by (simp add: run_Cons)
qed

text \<open>\<open>handleReset\<close> is the one place that clears the page image.\<close>

lemma handleReset_clears: "run s handleReset = initial_state"
  by (simp add: handleReset_def run_def initial_state_def)

text \<open>What the try block has done when it throws.\<close>

lemma scan_try_throws:
  assumes "scan_try env p f = (as, Throws e)"
  shows "(snd (getPageImage env f p) = Throws e \<and> as = fst (getPageImage env f p)) \<or>
         (\<exists>url as2. snd (getPageImage env f p) = Returns url \<and>
            as = fst (getPageImage env f p) @ [SetOriginalImage (Some url)] @ as2 \<and>
            (\<forall>a\<in>set as2. \<forall>s. apply_action s a = s))"
proof (cases "getPageImage env f p")
  case (Pair as1 out)
  show ?thesis
  proof (cases out)
    case (Returns url)
    obtain as2 r where d: "detectVisualElements env (nth_opt (js_split CHR '','' url) 1) = (as2, r)"
      by (cases "detectVisualElements env (nth_opt (js_split CHR '','' url) 1)")
    have sil: "\<forall>a\<in>set as2. \<forall>s. apply_action s a = s"
      using detect_silent [of _ env "nth_opt (js_split CHR '','' url) 1"] d by simp
    from assms Pair Returns d
    have "as = as1 @ [SetOriginalImage (Some url)] @ as2 \<or>
          as = as1 @ [SetOriginalImage (Some url)] @ (as2 @ [ImageLoad url])"
      by (auto simp: scan_try_def Let_def split: sum.splits option.splits)
    with sil Pair Returns show ?thesis by auto
  next
    case (Throws e')
    with assms Pair show ?thesis by (simp add: scan_try_def)
  next
    case Never
    with assms Pair show ?thesis by (simp add: scan_try_def)
  qed
qed

text \<open>The state a failing scan leaves when nothing else runs between its steps.\<close>

lemma failed_scan_final_state:
  assumes "snd (scan_try env pageNumber f) = Throws e"
  shows "fst (handleScan env pageNumber (Some f)) =
           [SetIsGenerating True, SetShowPreview True, SetExtractedItems []] @
           fst (scan_try env pageNumber f) @
           [ConsoleError ''Scanning failed:'' e,
            Alert ''Extraction failed. Check the console for details.'',
            SetShowPreview False, SetIsGenerating False] \<and>
         snd (handleScan env pageNumber (Some f)) = Returns () \<and>
         isGenerating (run s (fst (handleScan env pageNumber (Some f)))) = False \<and>
         showPreview (run s (fst (handleScan env pageNumber (Some f)))) = False \<and>
         extractedItems (run s (fst (handleScan env pageNumber (Some f)))) = [] \<and>
         originalImage (run s (fst (handleScan env pageNumber (Some f)))) =
           (case snd (getPageImage env f pageNumber) of
              Returns url \<Rightarrow> Some url
            | Throws e' \<Rightarrow> originalImage s
            | Never \<Rightarrow> originalImage s)"
proof -
  obtain as where st: "scan_try env pageNumber f = (as, Throws e)"
    using assms by (cases "scan_try env pageNumber f") simp
  have acts: "fst (handleScan env pageNumber (Some f)) =
      [SetIsGenerating True, SetShowPreview True, SetExtractedItems []] @ as @
      [ConsoleError ''Scanning failed:'' e,
       Alert ''Extraction failed. Check the console for details.'',
       SetShowPreview False, SetIsGenerating False]"
    and ret: "snd (handleScan env pageNumber (Some f)) = Returns ()"
    using st by (simp_all add: handleScan_def scan_catch_def)
  let ?s0 = "s\<lparr>isGenerating := True, showPreview := True, extractedItems := []\<rparr>"
  have pre: "run s [SetIsGenerating True, SetShowPreview True, SetExtractedItems []] = ?s0"
    by (simp add: run_def)
  have ext: "run t (fst (getPageImage env f pageNumber)) = t" for t
    by (rule run_silent) (rule external_silent, rule getPageImage_external)
  have mid: "run ?s0 as =
      ?s0\<lparr>originalImage := (case snd (getPageImage env f pageNumber) of
              Returns url \<Rightarrow> Some url
            | Throws e' \<Rightarrow> originalImage s
            | Never \<Rightarrow> originalImage s)\<rparr>"
    using scan_try_throws [OF st]
  proof
    assume "snd (getPageImage env f pageNumber) = Throws e \<and> as = fst (getPageImage env f pageNumber)"
    then show ?thesis by (simp add: ext)
  next
    assume "\<exists>url as2. snd (getPageImage env f pageNumber) = Returns url \<and>
            as = fst (getPageImage env f pageNumber) @ [SetOriginalImage (Some url)] @ as2 \<and>
            (\<forall>a\<in>set as2. \<forall>s. apply_action s a = s)"
    then obtain url as2 where
      u: "snd (getPageImage env f pageNumber) = Returns url"
         "as = fst (getPageImage env f pageNumber) @ [SetOriginalImage (Some url)] @ as2"
         "\<forall>a\<in>set as2. \<forall>s. apply_action s a = s"
      by blast
    have "run t as2 = t" for t
      using u(3) by (intro run_silent) simp
    with u show ?thesis by (simp add: run_append ext run_Cons)
  qed
  have fin: "run s (fst (handleScan env pageNumber (Some f))) =
      ?s0\<lparr>originalImage := (case snd (getPageImage env f pageNumber) of
              Returns url \<Rightarrow> Some url
            | Throws e' \<Rightarrow> originalImage s
            | Never \<Rightarrow> originalImage s),
          showPreview := False, isGenerating := False\<rparr>"
    unfolding acts run_append pre mid by (simp add: run_def)
  have c1: "fst (handleScan env pageNumber (Some f)) =
           [SetIsGenerating True, SetShowPreview True, SetExtractedItems []] @
           fst (scan_try env pageNumber f) @
           [ConsoleError ''Scanning failed:'' e,
            Alert ''Extraction failed. Check the console for details.'',
            SetShowPreview False, SetIsGenerating False]"
    using acts st by simp
  have c3: "isGenerating (run s (fst (handleScan env pageNumber (Some f)))) = False"
    and c4: "showPreview (run s (fst (handleScan env pageNumber (Some f)))) = False"
    and c5: "extractedItems (run s (fst (handleScan env pageNumber (Some f)))) = []"
    and c6: "originalImage (run s (fst (handleScan env pageNumber (Some f)))) =
           (case snd (getPageImage env f pageNumber) of
              Returns url \<Rightarrow> Some url
            | Throws e' \<Rightarrow> originalImage s
            | Never \<Rightarrow> originalImage s)"
    by (simp_all add: fin)
  from c1 ret c3 c4 c5 c6 show ?thesis
    by (intro conjI)
qed

lemma scan_try_kinds:
  "a \<in> set (fst (scan_try env p f)) \<Longrightarrow>
   is_external a \<or> (\<exists>m e. a = ConsoleError m e) \<or>
   (\<exists>url. a = SetOriginalImage (Some url) \<and> snd (getPageImage env f p) = Returns url) \<or>
   (\<exists>xs. a = SetExtractedItems xs \<and> snd (scan_try env p f) = Returns ())"
proof (cases "getPageImage env f p")
  case (Pair as1 out)
  assume a: "a \<in> set (fst (scan_try env p f))"
  have e1: "is_external b" if "b \<in> set as1" for b
    using getPageImage_external [of b env f p] Pair that by simp
  show ?thesis
  proof (cases out)
    case (Returns url)
    obtain as2 r where d: "detectVisualElements env (nth_opt (js_split CHR '','' url) 1) = (as2, r)"
      by (cases "detectVisualElements env (nth_opt (js_split CHR '','' url) 1)")
    have e2: "(\<exists>rq. b = RemoteCall rq) \<or> (\<exists>m e. b = ConsoleError m e)" if "b \<in> set as2" for b
      using detect_actions [of b env "nth_opt (js_split CHR '','' url) 1"] d that by simp
    let ?zs1 = "as1 @ [SetOriginalImage (Some url)] @ as2"
    let ?zs2 = "as1 @ [SetOriginalImage (Some url)] @ as2 @ [ImageLoad url]"
    from Pair Returns d
    have "(fst (scan_try env p f) = ?zs1) \<or> (fst (scan_try env p f) = ?zs2) \<or>
          (\<exists>items. fst (scan_try env p f) = ?zs2 @ [SetExtractedItems items] \<and>
                   snd (scan_try env p f) = Returns ())"
      by (auto simp: scan_try_def Let_def split: sum.splits option.splits)
    then have "a \<in> set as1 \<or> a = SetOriginalImage (Some url) \<or> a \<in> set as2 \<or>
               a = ImageLoad url \<or>
               (\<exists>items. a = SetExtractedItems items \<and> snd (scan_try env p f) = Returns ())"
      using a by auto
    then show ?thesis
    proof (elim disjE exE conjE)
      assume "a \<in> set as1"
      then show ?thesis using e1 by simp
    next
      assume "a = SetOriginalImage (Some url)"
      then show ?thesis using Pair Returns by simp
    next
      assume "a \<in> set as2"
      from e2 [OF this] show ?thesis by auto
    next
      assume "a = ImageLoad url"
      then show ?thesis by simp
    next
      fix items
      assume "a = SetExtractedItems items" "snd (scan_try env p f) = Returns ()"
      then show ?thesis by simp
    qed
  next
    case (Throws e)
    with Pair a have "a \<in> set as1" by (simp add: scan_try_def)
    then show ?thesis using e1 by simp
  next
    case Never
    with Pair a have "a \<in> set as1" by (simp add: scan_try_def)
    then show ?thesis using e1 by simp
  qed
qed

lemma handleScan_actions:
  "\<exists>post. fst (handleScan env p (Some f)) =
      [SetIsGenerating True, SetShowPreview True, SetExtractedItems []] @
      fst (scan_try env p f) @ post \<and>
     (post = [] \<or> post = [SetIsGenerating False] \<or>
      (\<exists>e. post = [ConsoleError ''Scanning failed:'' e,
                    Alert ''Extraction failed. Check the console for details.'',
                    SetShowPreview False, SetIsGenerating False]))"
proof -
  obtain as out where st: "scan_try env p f = (as, out)"
    by (cases "scan_try env p f")
  then show ?thesis
    by (cases out) (simp_all add: handleScan_def scan_catch_def)
qed

text \<open>No scan ever clears the page image.\<close>

lemma handleScan_never_clears_image:
  "SetOriginalImage x \<in> set (fst (handleScan env p fo)) \<Longrightarrow> x \<noteq> None"
proof (cases fo)
  case None
  assume "SetOriginalImage x \<in> set (fst (handleScan env p fo))"
  with None show ?thesis by (simp add: handleScan_def)
next
  case (Some f)
  assume m: "SetOriginalImage x \<in> set (fst (handleScan env p fo))"
  from handleScan_actions [of env p f] obtain post where
    a: "fst (handleScan env p (Some f)) =
          [SetIsGenerating True, SetShowPreview True, SetExtractedItems []] @
          fst (scan_try env p f) @ post"
    and b: "post = [] \<or> post = [SetIsGenerating False] \<or>
      (\<exists>e. post = [ConsoleError ''Scanning failed:'' e,
                    Alert ''Extraction failed. Check the console for details.'',
                    SetShowPreview False, SetIsGenerating False])"
    by blast
  from b have "SetOriginalImage x \<notin> set post" by auto
  with m Some a have "SetOriginalImage x \<in> set (fst (scan_try env p f))" by simp
  from scan_try_kinds [OF this] show ?thesis by auto
qed

text \<open>
  C8, as the code has it. When the body of the \<open>try\<close> throws, at whatever stage,
  \<open>handleScan\<close> itself returns normally; after the actions of the body come the console
  message, the alert \<open>Extraction failed. Check the console for details.\<close>, and the
  clearing of the preview flag and of the loading flag. Whatever the state when the
  failure is caught, these four actions change the two flags and nothing else. Over
  its whole run the failing scan writes the item list only to empty it and the page
  image only to set it to the page the rasterizer returned; no scan ever clears the
  page image, \<open>handleReset\<close> does. When nothing else runs between the steps of the scan,
  it ends with both flags off, the item list empty, and the page image the new page if
  the rasterizer had returned and what it was before the scan otherwise.
\<close>

theorem failed_scan_clears_flags_only:
  assumes "snd (scan_try env pageNumber f) = Throws e"
  shows "fst (handleScan env pageNumber (Some f)) =
           [SetIsGenerating True, SetShowPreview True, SetExtractedItems []] @
           fst (scan_try env pageNumber f) @
           [ConsoleError ''Scanning failed:'' e,
            Alert ''Extraction failed. Check the console for details.'',
            SetShowPreview False, SetIsGenerating False] \<and>
         snd (handleScan env pageNumber (Some f)) = Returns () \<and>
         (\<forall>t. run t [ConsoleError ''Scanning failed:'' e,
                     Alert ''Extraction failed. Check the console for details.'',
                     SetShowPreview False, SetIsGenerating False] =
                t\<lparr>showPreview := False, isGenerating := False\<rparr>) \<and>
         (\<forall>xs. SetExtractedItems xs \<in> set (fst (handleScan env pageNumber (Some f))) \<longrightarrow>
               xs = []) \<and>
         (\<forall>x. SetOriginalImage x \<in> set (fst (handleScan env pageNumber (Some f))) \<longrightarrow>
              (\<exists>url. x = Some url \<and> snd (getPageImage env f pageNumber) = Returns url)) \<and>
         (\<forall>env' p' fo x. SetOriginalImage x \<in> set (fst (handleScan env' p' fo)) \<longrightarrow>
              x \<noteq> None) \<and>
         SetOriginalImage None \<in> set handleReset \<and>
         isGenerating (run s (fst (handleScan env pageNumber (Some f)))) = False \<and>
         showPreview (run s (fst (handleScan env pageNumber (Some f)))) = False \<and>
         extractedItems (run s (fst (handleScan env pageNumber (Some f)))) = [] \<and>
         originalImage (run s (fst (handleScan env pageNumber (Some f)))) =
           (case snd (getPageImage env f pageNumber) of
              Returns url \<Rightarrow> Some url
            | Throws e' \<Rightarrow> originalImage s
            | Never \<Rightarrow> originalImage s)"
proof -
  note old = failed_scan_final_state [OF assms, of s]
  let ?acts = "fst (handleScan env pageNumber (Some f))"
  from old have acts: "?acts =
           [SetIsGenerating True, SetShowPreview True, SetExtractedItems []] @
           fst (scan_try env pageNumber f) @
           [ConsoleError ''Scanning failed:'' e,
            Alert ''Extraction failed. Check the console for details.'',
            SetShowPreview False, SetIsGenerating False]"
    by (elim conjE)
  have c3: "\<forall>t. run t [ConsoleError ''Scanning failed:'' e,
                     Alert ''Extraction failed. Check the console for details.'',
                     SetShowPreview False, SetIsGenerating False] =
                t\<lparr>showPreview := False, isGenerating := False\<rparr>"
    by (simp add: run_def)
  have c4: "\<forall>xs. SetExtractedItems xs \<in> set ?acts \<longrightarrow> xs = []"
  proof (intro allI impI)
    fix xs assume "SetExtractedItems xs \<in> set ?acts"
    then have "xs = [] \<or> SetExtractedItems xs \<in> set (fst (scan_try env pageNumber f))"
      unfolding acts by auto
    moreover have "SetExtractedItems xs \<notin> set (fst (scan_try env pageNumber f))"
    proof
      assume "SetExtractedItems xs \<in> set (fst (scan_try env pageNumber f))"
      from scan_try_kinds [OF this] assms show False by auto
    qed
    ultimately show "xs = []" by simp
  qed
  have c5: "\<forall>x. SetOriginalImage x \<in> set ?acts \<longrightarrow>
              (\<exists>url. x = Some url \<and> snd (getPageImage env f pageNumber) = Returns url)"
  proof (intro allI impI)
    fix x assume "SetOriginalImage x \<in> set ?acts"
    then have "SetOriginalImage x \<in> set (fst (scan_try env pageNumber f))"
      unfolding acts by auto
    from scan_try_kinds [OF this]
    show "\<exists>url. x = Some url \<and> snd (getPageImage env f pageNumber) = Returns url"
      by auto
  qed
  have c6: "\<forall>env' p' fo x. SetOriginalImage x \<in> set (fst (handleScan env' p' fo)) \<longrightarrow>
              x \<noteq> None"
    using handleScan_never_clears_image by blast
  have c7: "SetOriginalImage None \<in> set handleReset"
    by (simp add: handleReset_def)
  from old c3 c4 c5 c6 c7 show ?thesis
    by (elim conjE) (intro conjI)
qed

text \<open>
  Two failing scans from the initial state: one where the crop loop throws on the
  detector's result, one where the PDF library is missing; and the four actions of the
  failure path on a state that holds an item and a page image.
\<close>

theorem failed_scan_clears_flags_only_witness:
  "isGenerating (run initial_state (fst (handleScan unvalidated_env 1 (Some demo_file)))) = False \<and>
   showPreview (run initial_state (fst (handleScan unvalidated_env 1 (Some demo_file)))) = False \<and>
   extractedItems (run initial_state (fst (handleScan unvalidated_env 1 (Some demo_file)))) = [] \<and>
   originalImage (run initial_state (fst (handleScan unvalidated_env 1 (Some demo_file)))) =
     Some ''data:image/png;base64,QUJD'' \<and>
   originalImage (run initial_state (fst (handleScan demo_env 1 (Some demo_pdf_file)))) = None \<and>
   run stale_state
     [ConsoleError ''Scanning failed:'' (TypeError ''is not iterable''),
      Alert ''Extraction failed. Check the console for details.'',
      SetShowPreview False, SetIsGenerating False] =
     stale_state\<lparr>showPreview := False, isGenerating := False\<rparr>"
proof -
  have t1: "snd (scan_try unvalidated_env 1 demo_file) = Throws (TypeError ''is not iterable'')"
    by (simp add: scan_try_def getPageImage_def detectVisualElements_def
        detect_try_def crop_all_def unvalidated_env_def demo_env_def demo_file_def)
  have g1: "snd (getPageImage unvalidated_env demo_file 1) = Returns ''data:image/png;base64,QUJD''"
    by (simp add: getPageImage_def unvalidated_env_def demo_env_def demo_file_def)
  have t2: "snd (scan_try demo_env 1 demo_pdf_file) = Throws (Error ''PDF Library missing'')"
    by (simp add: scan_try_def getPageImage_def demo_env_def demo_pdf_file_def)
  have g2: "snd (getPageImage demo_env demo_pdf_file 1) = Throws (Error ''PDF Library missing'')"
    by (simp add: getPageImage_def demo_env_def demo_pdf_file_def)
  note a = failed_scan_clears_flags_only [OF t1, of initial_state]
  note b = failed_scan_clears_flags_only [OF t2, of initial_state]
  from a have a1:
    "isGenerating (run initial_state (fst (handleScan unvalidated_env 1 (Some demo_file)))) = False \<and>
     showPreview (run initial_state (fst (handleScan unvalidated_env 1 (Some demo_file)))) = False \<and>
     extractedItems (run initial_state (fst (handleScan unvalidated_env 1 (Some demo_file)))) = [] \<and>
     originalImage (run initial_state (fst (handleScan unvalidated_env 1 (Some demo_file)))) =
       (case snd (getPageImage unvalidated_env demo_file 1) of
          Returns url \<Rightarrow> Some url
        | Throws e' \<Rightarrow> originalImage initial_state
        | Never \<Rightarrow> originalImage initial_state)"
    by (elim conjE) (intro conjI)
  from a have a2: "\<forall>t. run t
     [ConsoleError ''Scanning failed:'' (TypeError ''is not iterable''),
      Alert ''Extraction failed. Check the console for details.'',
      SetShowPreview False, SetIsGenerating False] =
     t\<lparr>showPreview := False, isGenerating := False\<rparr>"
    by (elim conjE)
  from b have b1:
    "originalImage (run initial_state (fst (handleScan demo_env 1 (Some demo_pdf_file)))) =
       (case snd (getPageImage demo_env demo_pdf_file 1) of
          Returns url \<Rightarrow> Some url
        | Throws e' \<Rightarrow> originalImage initial_state
        | Never \<Rightarrow> originalImage initial_state)"
    by (elim conjE)
  from a1 a2 [rule_format, of stale_state] b1 show ?thesis
    by (simp add: g1 g2 initial_state_def)
qed

text \<open>
  C8 as stated fails: the remote service answers \<open>{}\<close>, the detector returns that object,
  the loop over it throws a \<open>TypeError\<close>, and the scan that started from the initial
  state with no page image ends with the page image set.
\<close>

theorem failed_scan_leaves_page_image:
  "snd (scan_try unvalidated_env 1 demo_file) = Throws (TypeError ''is not iterable'') \<and>
   originalImage initial_state = None \<and>
   originalImage (run initial_state (fst (handleScan unvalidated_env 1 (Some demo_file)))) =
     Some ''data:image/png;base64,QUJD''"
  by (simp add: scan_try_def handleScan_def getPageImage_def detectVisualElements_def
        detect_try_def crop_all_def unvalidated_env_def demo_env_def demo_file_def
        initial_state_def run_def scan_catch_def)

section \<open>The item list during a scan\<close>

text \<open>
  The actions of the try block split in two: a first part that writes neither the item
  list nor the loading flag, and a rest (empty, or the one final \<open>setExtractedItems\<close>)
  that calls no collaborator.
\<close>

lemma scan_try_shape:
  "\<exists>zs ys. fst (scan_try env p f) = zs @ ys \<and>
           (\<forall>a\<in>set zs. \<not> writes_items_or_loading a) \<and>
           (\<forall>a\<in>set ys. \<not> is_external a)"
proof (cases "getPageImage env f p")
  case (Pair as1 out)
  have e1: "\<forall>a\<in>set as1. \<not> writes_items_or_loading a"
    using getPageImage_external [of _ env f p] external_no_write Pair by auto
  show ?thesis
  proof (cases out)
    case (Returns url)
    obtain as2 r where d: "detectVisualElements env (nth_opt (js_split CHR '','' url) 1) = (as2, r)"
      by (cases "detectVisualElements env (nth_opt (js_split CHR '','' url) 1)")
    have e2: "\<forall>a\<in>set as2. \<not> writes_items_or_loading a"
      using detect_no_write [of _ env "nth_opt (js_split CHR '','' url) 1"] d by simp
    let ?zs1 = "as1 @ [SetOriginalImage (Some url)] @ as2"
    let ?zs2 = "as1 @ [SetOriginalImage (Some url)] @ as2 @ [ImageLoad url]"
    have q1: "\<forall>a\<in>set ?zs1. \<not> writes_items_or_loading a"
      using e1 e2 by auto
    have q2: "\<forall>a\<in>set ?zs2. \<not> writes_items_or_loading a"
      using e1 e2 by auto
    from Pair Returns d
    have "fst (scan_try env p f) = ?zs1 @ [] \<or> fst (scan_try env p f) = ?zs2 @ [] \<or>
          (\<exists>items. fst (scan_try env p f) = ?zs2 @ [SetExtractedItems items])"
      by (auto simp: scan_try_def Let_def split: sum.splits option.splits)
    then show ?thesis
    proof (elim disjE exE)
      assume "fst (scan_try env p f) = ?zs1 @ []"
      with q1 show ?thesis
        by (intro exI [of _ ?zs1] exI [of _ "[]"]) simp
    next
      assume "fst (scan_try env p f) = ?zs2 @ []"
      with q2 show ?thesis
        by (intro exI [of _ ?zs2] exI [of _ "[]"]) simp
    next
      fix items
      assume "fst (scan_try env p f) = ?zs2 @ [SetExtractedItems items]"
      with q2 show ?thesis
        by (intro exI [of _ ?zs2] exI [of _ "[SetExtractedItems items]"]) simp
    qed
  next
    case (Throws e)
    with Pair have "fst (scan_try env p f) = as1 @ []" by (simp add: scan_try_def)
    with e1 show ?thesis
      by (intro exI [of _ as1] exI [of _ "[]"]) simp
  next
    case Never
    with Pair have "fst (scan_try env p f) = as1 @ []" by (simp add: scan_try_def)
    with e1 show ?thesis
      by (intro exI [of _ as1] exI [of _ "[]"]) simp
  qed
qed

lemma handleScan_shape:
  "\<exists>zs ys. fst (handleScan env p (Some f)) =
             [SetIsGenerating True, SetShowPreview True, SetExtractedItems []] @ zs @ ys \<and>
           (\<forall>a\<in>set zs. \<not> writes_items_or_loading a) \<and>
           (\<forall>a\<in>set ys. \<not> is_external a)"
proof -
  from scan_try_shape [of env p f] obtain zs ys where
    s: "fst (scan_try env p f) = zs @ ys"
       "\<forall>a\<in>set zs. \<not> writes_items_or_loading a" "\<forall>a\<in>set ys. \<not> is_external a"
    by blast
  obtain as out where st: "scan_try env p f = (as, out)"
    by (cases "scan_try env p f")
  with s(1) have as: "as = zs @ ys" by simp
  have "\<exists>post. fst (handleScan env p (Some f)) =
          [SetIsGenerating True, SetShowPreview True, SetExtractedItems []] @ zs @ (ys @ post) \<and>
          (\<forall>a\<in>set post. \<not> is_external a)"
    using st as by (cases out) (simp_all add: handleScan_def scan_catch_def)
  then obtain post where
    "fst (handleScan env p (Some f)) =
       [SetIsGenerating True, SetShowPreview True, SetExtractedItems []] @ zs @ (ys @ post)"
    "\<forall>a\<in>set (ys @ post). \<not> is_external a"
    using s(3) by auto
  with s(2) show ?thesis by blast
qed

text \<open>At each call to a collaborator the scan has emptied the item list.\<close>

lemma scan_calls_see_empty_list:
  "take 3 (fst (handleScan env pageNumber (Some f))) =
     [SetIsGenerating True, SetShowPreview True, SetExtractedItems []] \<and>
   (\<forall>n<length (fst (handleScan env pageNumber (Some f))).
      is_external (fst (handleScan env pageNumber (Some f)) ! n) \<longrightarrow>
        3 \<le> n \<and>
        isGenerating (run s (take n (fst (handleScan env pageNumber (Some f))))) \<and>
        extractedItems (run s (take n (fst (handleScan env pageNumber (Some f))))) = []) \<and>
   (\<forall>n. isGenerating (run s (take n (fst (handleScan env pageNumber (Some f))))) \<longrightarrow>
        LivePreview_items (run s (take n (fst (handleScan env pageNumber (Some f))))) = [])"
proof -
  let ?acts = "fst (handleScan env pageNumber (Some f))"
  let ?pre = "[SetIsGenerating True, SetShowPreview True, SetExtractedItems []]"
  from handleScan_shape [of env pageNumber f] obtain zs ys where
    sh: "?acts = ?pre @ zs @ ys"
        "\<forall>a\<in>set zs. \<not> writes_items_or_loading a" "\<forall>a\<in>set ys. \<not> is_external a"
    by blast
  have first: "take 3 ?acts = ?pre"
    by (simp add: sh(1))
  have calls: "3 \<le> n \<and> isGenerating (run s (take n ?acts)) \<and>
               extractedItems (run s (take n ?acts)) = []"
    if n: "n < length ?acts" and ext: "is_external (?acts ! n)" for n
  proof -
    have ge: "3 \<le> n"
    proof (rule ccontr)
      assume "\<not> 3 \<le> n"
      then have "n = 0 \<or> n = 1 \<or> n = 2" by arith
      then have "\<not> is_external (?acts ! n)" by (auto simp: sh(1))
      with ext show False by simp
    qed
    have lt: "n < 3 + length zs"
    proof (rule ccontr)
      assume "\<not> n < 3 + length zs"
      then have k: "3 + length zs \<le> n" by simp
      with n have "n - (3 + length zs) < length ys" by (simp add: sh(1))
      moreover have "?acts = (?pre @ zs) @ ys" by (simp add: sh(1))
      then have "?acts ! n = ys ! (n - length (?pre @ zs))"
        using k by (simp only: nth_append) simp
      then have "?acts ! n = ys ! (n - (3 + length zs))" by (simp add: numeral_3_eq_3)
      ultimately have "\<not> is_external (?acts ! n)" using sh(3) by simp
      with ext show False by simp
    qed
    let ?k = "n - length ?pre"
    have a: "take n ?acts = take n ?pre @ take ?k zs @ take (?k - length zs) ys"
      by (simp only: sh(1) take_append)
    have b: "take n ?pre = ?pre"
      using ge by (intro take_all) simp
    have c: "take (?k - length zs) ys = []"
      using lt by simp
    have tk: "take n ?acts = ?pre @ take ?k zs"
      by (simp only: a b c append_Nil2)
    have quiet: "\<not> writes_items_or_loading a" if "a \<in> set (take ?k zs)" for a
      using that sh(2) by (auto dest: in_set_takeD)
    have "run s (take n ?acts) = run (run s ?pre) (take ?k zs)"
      by (simp only: tk run_append)
    with run_no_writes [where as = "take ?k zs" and s = "run s ?pre", OF quiet]
    have "isGenerating (run s (take n ?acts)) = isGenerating (run s ?pre) \<and>
          extractedItems (run s (take n ?acts)) = extractedItems (run s ?pre)"
      by simp
    with ge show ?thesis by (simp add: run_def)
  qed
  have view: "LivePreview_items t = []" if "isGenerating t" for t
    using that by (simp add: LivePreview_items_def)
  from first calls view show ?thesis
    by (intro conjI allI impI) simp_all
qed

lemma demo_scan_actions:
  "fst (handleScan demo_env 1 (Some demo_file)) =
     [SetIsGenerating True, SetShowPreview True, SetExtractedItems [],
      ReadAsDataURL, SetOriginalImage (Some ''data:image/png;base64,QUJD''),
      RemoteCall (detect_request (Some ''QUJD'')),
      ImageLoad ''data:image/png;base64,QUJD'', SetExtractedItems [],
      SetIsGenerating False]"
  by (simp add: handleScan_def scan_try_def getPageImage_def detectVisualElements_def
        detect_try_def crop_all_def demo_env_def demo_file_def nth_opt_def)

lemma chart_text_nonempty: "chart_text \<noteq> []"
  by (simp add: chart_text_def)

lemma chart_scan_actions:
  "fst (handleScan chart_env 1 (Some demo_file)) =
     [SetIsGenerating True, SetShowPreview True, SetExtractedItems [],
      ReadAsDataURL, SetOriginalImage (Some ''data:image/png;base64,QUJD''),
      RemoteCall (detect_request (Some ''QUJD'')),
      ImageLoad ''data:image/png;base64,QUJD'', SetExtractedItems [chart_item],
      SetIsGenerating False]"
  by (simp add: handleScan_def scan_try_def getPageImage_def detectVisualElements_def
        detect_try_def crop_all_def chart_env_def demo_env_def demo_file_def nth_opt_def
        chart_text_nonempty ve_json_def demo_chart_def destructure4_def chart_item_def
        crop_ops_def Let_def)

lemma run_keeps_loading:
  "(\<And>a b. a \<in> set as \<Longrightarrow> a \<noteq> SetIsGenerating b) \<Longrightarrow>
   isGenerating (run s as) = isGenerating s"
proof (induction as arbitrary: s)
  case Nil
  then show ?case by (simp add: run_def)
next
  case (Cons a as)
  have "isGenerating (apply_action s a) = isGenerating s"
  proof (cases a)
    case (SetIsGenerating x)
    with Cons.prems [of a x] show ?thesis by simp
  qed simp_all
  moreover have "isGenerating (run (apply_action s a) as) = isGenerating (apply_action s a)"
    using Cons.prems by (intro Cons.IH) simp
  ultimately show ?case by (simp add: run_Cons)
qed

lemma scan_try_no_loading:
  "a \<in> set (fst (scan_try env p f)) \<Longrightarrow> a \<noteq> SetIsGenerating b"
  using scan_try_kinds [of a env p f] by auto

text \<open>
  The loading flag over a scan: switched on by the first action, switched off by the
  last one if the scan settles, and written nowhere in between.
\<close>

lemma handleScan_loading_shape:
  "\<exists>mid fin. fst (handleScan env p (Some f)) = (SetIsGenerating True # mid) @ fin \<and>
             (\<forall>a\<in>set mid. \<forall>b. a \<noteq> SetIsGenerating b) \<and>
             length fin \<le> 1"
proof -
  from handleScan_actions [of env p f] obtain post where
    a: "fst (handleScan env p (Some f)) =
          [SetIsGenerating True, SetShowPreview True, SetExtractedItems []] @
          fst (scan_try env p f) @ post"
    and b: "post = [] \<or> post = [SetIsGenerating False] \<or>
      (\<exists>e. post = [ConsoleError ''Scanning failed:'' e,
                    Alert ''Extraction failed. Check the console for details.'',
                    SetShowPreview False, SetIsGenerating False])"
    by blast
  let ?as = "fst (scan_try env p f)"
  have q: "\<forall>a\<in>set ?as. \<forall>b. a \<noteq> SetIsGenerating b"
    using scan_try_no_loading by blast
  from b show ?thesis
  proof (elim disjE exE)
    assume "post = []"
    with a q show ?thesis
      by (intro exI [of _ "[SetShowPreview True, SetExtractedItems []] @ ?as"] exI [of _ "[]"])
         auto
  next
    assume "post = [SetIsGenerating False]"
    with a q show ?thesis
      by (intro exI [of _ "[SetShowPreview True, SetExtractedItems []] @ ?as"]
            exI [of _ "[SetIsGenerating False]"]) auto
  next
    fix e
    assume "post = [ConsoleError ''Scanning failed:'' e,
                    Alert ''Extraction failed. Check the console for details.'',
                    SetShowPreview False, SetIsGenerating False]"
    with a q show ?thesis
      by (intro exI [of _ "[SetShowPreview True, SetExtractedItems []] @ ?as @
              [ConsoleError ''Scanning failed:'' e,
               Alert ''Extraction failed. Check the console for details.'',
               SetShowPreview False]"]
            exI [of _ "[SetIsGenerating False]"]) auto
  qed
qed

lemma scan_loading_throughout:
  assumes "1 \<le> n" "n < length (fst (handleScan env p (Some f)))"
  shows "isGenerating (run s (take n (fst (handleScan env p (Some f)))))"
proof -
  let ?acts = "fst (handleScan env p (Some f))"
  from handleScan_loading_shape [of env p f] obtain mid fin where
    sh: "?acts = (SetIsGenerating True # mid) @ fin"
        "\<forall>a\<in>set mid. \<forall>b. a \<noteq> SetIsGenerating b" "length fin \<le> 1"
    by blast
  from assms(2) sh(1) sh(3) have le: "n \<le> length (SetIsGenerating True # mid)"
    by simp
  have "take n ?acts = take n (SetIsGenerating True # mid) @
          take (n - length (SetIsGenerating True # mid)) fin"
    by (simp only: sh(1) take_append)
  with le have "take n ?acts = take n (SetIsGenerating True # mid)"
    by simp
  moreover from assms(1) obtain k where k: "n = Suc k"
    by (cases n) simp_all
  ultimately have tk: "take n ?acts = SetIsGenerating True # take k mid"
    by simp
  have quiet: "a \<noteq> SetIsGenerating b" if "a \<in> set (take k mid)" for a b
    using that sh(2) by (auto dest: in_set_takeD)
  have "isGenerating (run (apply_action s (SetIsGenerating True)) (take k mid)) =
        isGenerating (apply_action s (SetIsGenerating True))"
    by (rule run_keeps_loading) (rule quiet)
  then show ?thesis
    by (simp add: tk run_Cons)
qed

text \<open>
  C10, as the code has it. A scan with a file begins with three state writes: loading
  on, preview on, item list emptied. Every call to a collaborator (file reader, PDF
  library, remote service, image decoder) comes after them. When nothing else runs
  between the steps of the scan: at each such call, which is where the scan suspends,
  the session is loading and its item list is empty whatever it held before the scan;
  and from the first action of the scan until its last the session is loading, so
  \<open>LivePreview\<close> renders no item.
\<close>

theorem scan_hides_items_while_it_runs:
  "take 3 (fst (handleScan env pageNumber (Some f))) =
     [SetIsGenerating True, SetShowPreview True, SetExtractedItems []] \<and>
   (\<forall>n<length (fst (handleScan env pageNumber (Some f))).
      is_external (fst (handleScan env pageNumber (Some f)) ! n) \<longrightarrow>
        3 \<le> n \<and>
        isGenerating (run s (take n (fst (handleScan env pageNumber (Some f))))) \<and>
        extractedItems (run s (take n (fst (handleScan env pageNumber (Some f))))) = []) \<and>
   (\<forall>n. 1 \<le> n \<and> n < length (fst (handleScan env pageNumber (Some f))) \<longrightarrow>
        isGenerating (run s (take n (fst (handleScan env pageNumber (Some f))))) \<and>
        LivePreview_items (run s (take n (fst (handleScan env pageNumber (Some f))))) = [])"
proof -
  note old = scan_calls_see_empty_list [of env pageNumber f s]
  from old have c1: "take 3 (fst (handleScan env pageNumber (Some f))) =
     [SetIsGenerating True, SetShowPreview True, SetExtractedItems []]"
    by (elim conjE)
  from old have c2: "\<forall>n<length (fst (handleScan env pageNumber (Some f))).
      is_external (fst (handleScan env pageNumber (Some f)) ! n) \<longrightarrow>
        3 \<le> n \<and>
        isGenerating (run s (take n (fst (handleScan env pageNumber (Some f))))) \<and>
        extractedItems (run s (take n (fst (handleScan env pageNumber (Some f))))) = []"
    by (elim conjE)
  have c3: "\<forall>n. 1 \<le> n \<and> n < length (fst (handleScan env pageNumber (Some f))) \<longrightarrow>
        isGenerating (run s (take n (fst (handleScan env pageNumber (Some f))))) \<and>
        LivePreview_items (run s (take n (fst (handleScan env pageNumber (Some f))))) = []"
  proof (intro allI impI)
    fix n
    assume "1 \<le> n \<and> n < length (fst (handleScan env pageNumber (Some f)))"
    then have "isGenerating (run s (take n (fst (handleScan env pageNumber (Some f)))))"
      using scan_loading_throughout [of n env pageNumber f s] by simp
    then show "isGenerating (run s (take n (fst (handleScan env pageNumber (Some f))))) \<and>
        LivePreview_items (run s (take n (fst (handleScan env pageNumber (Some f))))) = []"
      by (simp add: LivePreview_items_def)
  qed
  from c1 c2 c3 show ?thesis by (intro conjI)
qed

text \<open>
  Scans started from a state that still holds an item: at the remote call, the sixth
  action, the list is empty; after the first action nothing is rendered; and when the
  scan that finds the chart has stored its item, one action before its end, nothing is
  rendered yet.
\<close>

theorem scan_hides_items_while_it_runs_witness:
  "extractedItems stale_state \<noteq> [] \<and>
   fst (handleScan demo_env 1 (Some demo_file)) ! 5 = RemoteCall (detect_request (Some ''QUJD'')) \<and>
   isGenerating (run stale_state (take 5 (fst (handleScan demo_env 1 (Some demo_file))))) \<and>
   extractedItems (run stale_state (take 5 (fst (handleScan demo_env 1 (Some demo_file))))) = [] \<and>
   isGenerating (run stale_state (take 1 (fst (handleScan demo_env 1 (Some demo_file))))) \<and>
   LivePreview_items (run stale_state (take 1 (fst (handleScan demo_env 1 (Some demo_file))))) = [] \<and>
   LivePreview_items (run stale_state (take 8 (fst (handleScan chart_env 1 (Some demo_file))))) = [] \<and>
   extractedItems (run stale_state (take 8 (fst (handleScan chart_env 1 (Some demo_file))))) =
     [chart_item]"
proof -
  have st: "extractedItems stale_state \<noteq> []"
    by (simp add: stale_state_def)
  have at5: "fst (handleScan demo_env 1 (Some demo_file)) ! 5 =
      RemoteCall (detect_request (Some ''QUJD''))"
    by (simp add: demo_scan_actions)
  have len: "5 < length (fst (handleScan demo_env 1 (Some demo_file)))"
    by (simp add: demo_scan_actions)
  have ext: "is_external (fst (handleScan demo_env 1 (Some demo_file)) ! 5)"
    by (simp add: at5)
  have r1: "1 \<le> (1::nat) \<and> 1 < length (fst (handleScan demo_env 1 (Some demo_file)))"
    by (simp add: demo_scan_actions)
  have r8: "1 \<le> (8::nat) \<and> 8 < length (fst (handleScan chart_env 1 (Some demo_file)))"
    by (simp add: chart_scan_actions)
  note t = scan_hides_items_while_it_runs [of demo_env 1 demo_file stale_state]
  note u = scan_hides_items_while_it_runs [of chart_env 1 demo_file stale_state]
  from t [THEN conjunct2, THEN conjunct1, rule_format, OF len ext]
  have call: "isGenerating (run stale_state (take 5 (fst (handleScan demo_env 1 (Some demo_file))))) \<and>
    extractedItems (run stale_state (take 5 (fst (handleScan demo_env 1 (Some demo_file))))) = []"
    by simp
  from t [THEN conjunct2, THEN conjunct2, rule_format, OF r1]
  have first: "isGenerating (run stale_state (take 1 (fst (handleScan demo_env 1 (Some demo_file))))) \<and>
    LivePreview_items (run stale_state (take 1 (fst (handleScan demo_env 1 (Some demo_file))))) = []" .
  from u [THEN conjunct2, THEN conjunct2, rule_format, OF r8]
  have late: "LivePreview_items (run stale_state (take 8 (fst (handleScan chart_env 1 (Some demo_file))))) = []"
    by simp
  have stored: "extractedItems (run stale_state (take 8 (fst (handleScan chart_env 1 (Some demo_file))))) =
     [chart_item]"
    by (simp add: chart_scan_actions run_def)
  from st at5 call first late stored show ?thesis by simp
qed

text \<open>
  C10 as stated fails. Scan A (which finds the chart) runs up to its remote call; the
  user leaves the preview (\<open>handleReset\<close>) and starts scan B, which runs up to its remote
  call; then A's call returns and A runs to its end. Before A resumes nothing is
  rendered; after it, the item of A is rendered while B has not finished.
\<close>

theorem earlier_scan_items_shown_during_later_scan:
  "take 6 (fst (handleScan chart_env 1 (Some demo_file))) =
     [SetIsGenerating True, SetShowPreview True, SetExtractedItems [],
      ReadAsDataURL, SetOriginalImage (Some ''data:image/png;base64,QUJD''),
      RemoteCall (detect_request (Some ''QUJD''))] \<and>
   drop 6 (fst (handleScan chart_env 1 (Some demo_file))) =
     [ImageLoad ''data:image/png;base64,QUJD'', SetExtractedItems [chart_item],
      SetIsGenerating False] \<and>
   LivePreview_items
     (run initial_state
        (take 6 (fst (handleScan chart_env 1 (Some demo_file))) @ handleReset @
         take 6 (fst (handleScan demo_env 1 (Some demo_file))))) = [] \<and>
   LivePreview_items
     (run initial_state
        (take 6 (fst (handleScan chart_env 1 (Some demo_file))) @ handleReset @
         take 6 (fst (handleScan demo_env 1 (Some demo_file))) @
         drop 6 (fst (handleScan chart_env 1 (Some demo_file))))) = [chart_item] \<and>
   drop 6 (fst (handleScan demo_env 1 (Some demo_file))) \<noteq> []"
  by (simp add: chart_scan_actions demo_scan_actions handleReset_def run_def
        LivePreview_items_def initial_state_def)

end
